theory Spec2Isabelle
  imports Main "HOL-Library.AList" "HOL-Library.Sublist"
begin

section \<open>Decoded JSON values and Python's view of them\<close>

text \<open>
  The client never inspects most of what the server sends: it decodes a JSON body and
  passes the value on. \<open>json\<close> is such a decoded value. Numbers are integers here; the
  code never computes with a number, and non-integral numbers are outside the model.
  A decoded object is a Python dict, kept as an association list in insertion order.
\<close>

datatype json =
    JNull
  | JBool bool
  | JNum int
  | JStr string
  | JArr "json list"
  | JObj "(string \<times> json) list"

type_synonym pydict = "(string \<times> json) list"

text \<open>The exceptions that can surface from the library. \<open>AttributeError a\<close> is the
  failed lookup of attribute \<open>a\<close>; \<open>HTTPError\<close> and \<open>ClientResponseError\<close> are what
  \<open>raise_for_status\<close> raises in \<open>requests\<close> and in \<open>aiohttp\<close>, with the status code;
  \<open>TransportError\<close> and \<open>DecodeError\<close> stand for whatever the HTTP library raises
  while sending a request or decoding a body.\<close>

datatype error =
    RuntimeError string
  | ValueError string
  | AttributeError string
  | TypeError string
  | HTTPError nat
  | ClientResponseError nat
  | TransportError string
  | DecodeError string

text \<open>\<open>d.get(k, default)\<close> and \<open>d[k] = v\<close> on a dict.\<close>

definition dict_get :: "pydict \<Rightarrow> string \<Rightarrow> json \<Rightarrow> json" where
  "dict_get d k dflt = (case map_of d k of None \<Rightarrow> dflt | Some v \<Rightarrow> v)"

definition dict_set :: "pydict \<Rightarrow> string \<Rightarrow> json \<Rightarrow> pydict" where
  "dict_set d k v = AList.update k v d"

text \<open>\<open>x.get(k, default)\<close> on an arbitrary decoded value: only a dict has \<open>get\<close>.\<close>

fun py_get :: "json \<Rightarrow> string \<Rightarrow> json \<Rightarrow> error + json" where
  "py_get (JObj d) k dflt = Inr (dict_get d k dflt)"
| "py_get _ k dflt = Inl (AttributeError ''get'')"

text \<open>Truthiness, as tested by \<open>if not self.token\<close>.\<close>

fun py_truthy :: "json \<Rightarrow> bool" where
  "py_truthy JNull = False"
| "py_truthy (JBool b) = b"
| "py_truthy (JNum n) = (n \<noteq> 0)"
| "py_truthy (JStr s) = (s \<noteq> [])"
| "py_truthy (JArr xs) = (xs \<noteq> [])"
| "py_truthy (JObj d) = (d \<noteq> [])"

text \<open>Decimal digits of a natural number, for \<open>str\<close> of an int.\<close>

fun digits :: "nat \<Rightarrow> string" where
  "digits n = (if n < 10 then [''0123456789'' ! n]
               else digits (n div 10) @ [''0123456789'' ! (n mod 10)])"

declare digits.simps [simp del]

section \<open>Requests, responses and the environment\<close>

datatype http_method = GET | POST

record request =
  meth :: http_method
  url :: string
  headers :: "(string \<times> string) list"
  form :: "(string \<times> string) list option"

text \<open>A response as far as the client looks at it: its status code, and what its
  \<open>json()\<close> method does (raise, or return the decoded body).\<close>

record response =
  status_code :: nat
  json_body :: "error + json"

text \<open>
  The environment of a run. \<open>reply\<close> is the server together with the transport: given the
  requests this client has issued so far (oldest first) and the next request, either the
  transport raises or a response comes back. \<open>py_repr\<close> is Python's rendering of a list or
  dict inside an f-string, which the model leaves open.
\<close>

record env =
  reply :: "request list \<Rightarrow> request \<Rightarrow> error + response"
  py_repr :: "json \<Rightarrow> string"

text \<open>\<open>f"{x}"\<close> for a decoded value \<open>x\<close>.\<close>

fun py_str :: "env \<Rightarrow> json \<Rightarrow> string" where
  "py_str E (JStr s) = s"
| "py_str E JNull = ''None''"
| "py_str E (JBool b) = (if b then ''True'' else ''False'')"
| "py_str E (JNum n) = (if n < 0 then ''-'' @ digits (nat (- n)) else digits (nat n))"
| "py_str E (JArr xs) = py_repr E (JArr xs)"
| "py_str E (JObj d) = py_repr E (JObj d)"

section \<open>The client object and the store\<close>

text \<open>
  \<open>state\<close> holds the fields of a \<open>BankingAPIClient\<close> and, next to them, what a run can
  change outside the object: the requests issued so far (\<open>sent\<close>) and the store of account
  records (\<open>heap\<close>, with \<open>fresh\<close> the next unused address).
  \<open>session\<close> is true when \<open>self.session\<close> holds the session object that \<open>__enter__\<close> or
  \<open>__aenter__\<close> creates for the instance's mode, false when it is \<open>None\<close>.
  \<open>token\<close> is \<open>JNull\<close> for \<open>None\<close>.

  Of all the objects that decoding a body creates, the program writes to one kind only:
  the dicts inside the list that \<open>get_accounts\<close> returns. Those are given addresses, so
  that a write is seen through every reference to the record; the values stored under
  a record's keys, and every other decoded body, are never written to and are kept as
  plain JSON values.
\<close>

type_synonym addr = nat

record state =
  base_url :: string
  username :: string
  password :: string
  use_async :: bool
  session :: bool
  token :: json
  token_type :: json
  sent :: "request list"
  heap :: "addr \<Rightarrow> pydict"
  fresh :: addr

text \<open>The value \<open>get_accounts\<close> hands out: dicts by reference, lists of such values,
  and scalars.\<close>

datatype pyval =
    Ref addr
  | PyList "pyval list"
  | PNone
  | PBool bool
  | PNum int
  | PStr string

text \<open>Every operation returns the exception or the value, and the state it leaves.\<close>

type_synonym 'a result = "(error + 'a) \<times> state"

definition rstrip_slash :: "string \<Rightarrow> string" where
  "rstrip_slash s = rev (dropWhile (\<lambda>c. c = CHR ''/'') (rev s))"

definition init :: "string \<Rightarrow> string \<Rightarrow> string \<Rightarrow> bool \<Rightarrow> state" where
  "init b u p a =
     \<lparr> base_url = rstrip_slash b, username = u, password = p, use_async = a,
       session = False, token = JNull, token_type = JStr ''bearer'',
       sent = [], heap = (\<lambda>_. []), fresh = 0 \<rparr>"

definition enter :: "state \<Rightarrow> state" where
  "enter s = (if \<not> use_async s then s\<lparr>session := True\<rparr> else s)"

definition aenter :: "state \<Rightarrow> state" where
  "aenter s = (if use_async s then s\<lparr>session := True\<rparr> else s)"

definition send :: "env \<Rightarrow> state \<Rightarrow> request \<Rightarrow> response result" where
  "send E s rq = (reply E (sent s) rq, s\<lparr>sent := sent s @ [rq]\<rparr>)"

text \<open>\<open>raise_for_status\<close> of \<open>requests\<close> (4xx and 5xx raise) and of \<open>aiohttp\<close>
  (400 and above raise).\<close>

definition raise_for_status :: "response \<Rightarrow> error + unit" where
  "raise_for_status r =
     (if 400 \<le> status_code r \<and> status_code r < 600 then Inl (HTTPError (status_code r))
      else Inr ())"

definition raise_for_status_async :: "response \<Rightarrow> error + unit" where
  "raise_for_status_async r =
     (if 400 \<le> status_code r then Inl (ClientResponseError (status_code r)) else Inr ())"

section \<open>BankingAPIClient\<close>

definition token_request :: "state \<Rightarrow> request" where
  "token_request s =
     \<lparr> meth = POST, url = base_url s @ ''/oauth/token'',
       headers = [(''Content-Type'', ''application/x-www-form-urlencoded'')],
       form = Some [(''username'', username s), (''password'', password s),
                    (''scope'', ''stet'')] \<rparr>"

text \<open>The body shared by \<open>authenticate\<close> and \<open>authenticate_async\<close> after the mode
  check; \<open>rfs\<close> is the library's \<open>raise_for_status\<close>. \<open>self.session.post\<close> is looked up
  first, so a missing session raises before anything is sent.\<close>

definition request_token :: "(response \<Rightarrow> error + unit) \<Rightarrow> env \<Rightarrow> state \<Rightarrow> json result" where
  "request_token rfs E s =
     (if \<not> session s then (Inl (AttributeError ''post''), s)
      else case send E s (token_request s) of
        (Inl e, s1) \<Rightarrow> (Inl e, s1)
      | (Inr resp, s1) \<Rightarrow>
          (case rfs resp of
             Inl e \<Rightarrow> (Inl e, s1)
           | Inr _ \<Rightarrow>
               (case json_body resp of
                  Inl e \<Rightarrow> (Inl e, s1)
                | Inr data \<Rightarrow>
                    (case py_get data ''access_token'' JNull of
                       Inl e \<Rightarrow> (Inl e, s1)
                     | Inr tok \<Rightarrow>
                         (case py_get data ''token_type'' (JStr ''bearer'') of
                            Inl e \<Rightarrow> (Inl e, s1\<lparr>token := tok\<rparr>)
                          | Inr tt \<Rightarrow> (Inr tok, s1\<lparr>token := tok, token_type := tt\<rparr>))))))"

definition authenticate :: "env \<Rightarrow> state \<Rightarrow> json result" where
  "authenticate E s =
     (if use_async s then (Inl (RuntimeError ''Use authenticate_async for async mode''), s)
      else request_token raise_for_status E s)"

definition authenticate_async :: "env \<Rightarrow> state \<Rightarrow> json result" where
  "authenticate_async E s =
     (if \<not> use_async s then (Inl (RuntimeError ''Use authenticate for sync mode''), s)
      else request_token raise_for_status_async E s)"

definition get_headers :: "env \<Rightarrow> state \<Rightarrow> error + (string \<times> string) list" where
  "get_headers E s =
     (if \<not> py_truthy (token s)
      then Inl (ValueError ''Not authenticated. Call authenticate() first'')
      else Inr [(''Authorization'', py_str E (token_type s) @ '' '' @ py_str E (token s)),
                (''Content-Type'', ''application/json'')])"

text \<open>The three lines every fetch method shares after its mode check:
  \<open>response = self.session.get(url, headers=self._get_headers())\<close>,
  \<open>response.raise_for_status()\<close>, \<open>return response.json()\<close>. Python evaluates
  \<open>self.session.get\<close> before the arguments of the call.\<close>

definition get_json :: "(response \<Rightarrow> error + unit) \<Rightarrow> env \<Rightarrow> state \<Rightarrow> string \<Rightarrow> json result" where
  "get_json rfs E s u =
     (if \<not> session s then (Inl (AttributeError ''get''), s)
      else case get_headers E s of
        Inl e \<Rightarrow> (Inl e, s)
      | Inr hs \<Rightarrow>
          (case send E s \<lparr> meth = GET, url = u, headers = hs, form = None \<rparr> of
             (Inl e, s1) \<Rightarrow> (Inl e, s1)
           | (Inr resp, s1) \<Rightarrow>
               (case rfs resp of
                  Inl e \<Rightarrow> (Inl e, s1)
                | Inr _ \<Rightarrow> (json_body resp, s1))))"

definition get_identity :: "env \<Rightarrow> state \<Rightarrow> json result" where
  "get_identity E s =
     (if use_async s then (Inl (RuntimeError ''Use get_identity_async for async mode''), s)
      else get_json raise_for_status E s (base_url s @ ''/stet/identity''))"

definition get_identity_async :: "env \<Rightarrow> state \<Rightarrow> json result" where
  "get_identity_async E s =
     (if \<not> use_async s then (Inl (RuntimeError ''Use get_identity for sync mode''), s)
      else get_json raise_for_status_async E s (base_url s @ ''/stet/identity''))"

text \<open>Decoding the account list: each dict in it becomes a fresh object in the store.\<close>

fun load :: "json \<Rightarrow> state \<Rightarrow> pyval \<times> state"
  and load_list :: "json list \<Rightarrow> state \<Rightarrow> pyval list \<times> state" where
  "load JNull s = (PNone, s)"
| "load (JBool b) s = (PBool b, s)"
| "load (JNum n) s = (PNum n, s)"
| "load (JStr x) s = (PStr x, s)"
| "load (JObj d) s = (Ref (fresh s), s\<lparr>heap := (heap s)(fresh s := d), fresh := Suc (fresh s)\<rparr>)"
| "load (JArr js) s = (case load_list js s of (vs, s') \<Rightarrow> (PyList vs, s'))"
| "load_list [] s = ([], s)"
| "load_list (j # js) s =
     (case load j s of (v, s1) \<Rightarrow> (case load_list js s1 of (vs, s2) \<Rightarrow> (v # vs, s2)))"

definition get_accounts :: "env \<Rightarrow> state \<Rightarrow> pyval result" where
  "get_accounts E s =
     (if use_async s then (Inl (RuntimeError ''Use get_accounts_async for async mode''), s)
      else case get_json raise_for_status E s (base_url s @ ''/stet/account'') of
        (Inl e, s1) \<Rightarrow> (Inl e, s1)
      | (Inr j, s1) \<Rightarrow> (case load j s1 of (v, s2) \<Rightarrow> (Inr v, s2)))"

definition get_accounts_async :: "env \<Rightarrow> state \<Rightarrow> pyval result" where
  "get_accounts_async E s =
     (if \<not> use_async s then (Inl (RuntimeError ''Use get_accounts for sync mode''), s)
      else case get_json raise_for_status_async E s (base_url s @ ''/stet/account'') of
        (Inl e, s1) \<Rightarrow> (Inl e, s1)
      | (Inr j, s1) \<Rightarrow> (case load j s1 of (v, s2) \<Rightarrow> (Inr v, s2)))"

definition get_account :: "env \<Rightarrow> state \<Rightarrow> json \<Rightarrow> json result" where
  "get_account E s account_id =
     (if use_async s then (Inl (RuntimeError ''Use get_account_async for async mode''), s)
      else get_json raise_for_status E s
             (base_url s @ ''/stet/account/'' @ py_str E account_id))"

definition get_account_async :: "env \<Rightarrow> state \<Rightarrow> json \<Rightarrow> json result" where
  "get_account_async E s account_id =
     (if \<not> use_async s then (Inl (RuntimeError ''Use get_account for sync mode''), s)
      else get_json raise_for_status_async E s
             (base_url s @ ''/stet/account/'' @ py_str E account_id))"

definition get_balances :: "env \<Rightarrow> state \<Rightarrow> json \<Rightarrow> json result" where
  "get_balances E s account_id =
     (if use_async s then (Inl (RuntimeError ''Use get_balances_async for async mode''), s)
      else get_json raise_for_status E s
             (base_url s @ ''/stet/account/'' @ py_str E account_id @ ''/balance''))"

definition get_balances_async :: "env \<Rightarrow> state \<Rightarrow> json \<Rightarrow> json result" where
  "get_balances_async E s account_id =
     (if \<not> use_async s then (Inl (RuntimeError ''Use get_balances for sync mode''), s)
      else get_json raise_for_status_async E s
             (base_url s @ ''/stet/account/'' @ py_str E account_id @ ''/balance''))"

definition get_transactions :: "env \<Rightarrow> state \<Rightarrow> json \<Rightarrow> json result" where
  "get_transactions E s account_id =
     (if use_async s
      then (Inl (RuntimeError ''Use get_transactions_async for async mode''), s)
      else get_json raise_for_status E s
             (base_url s @ ''/stet/account/'' @ py_str E account_id @ ''/transaction''))"

definition get_transactions_async :: "env \<Rightarrow> state \<Rightarrow> json \<Rightarrow> json result" where
  "get_transactions_async E s account_id =
     (if \<not> use_async s then (Inl (RuntimeError ''Use get_transactions for sync mode''), s)
      else get_json raise_for_status_async E s
             (base_url s @ ''/stet/account/'' @ py_str E account_id @ ''/transaction''))"

section \<open>BankingDataCollector\<close>

text \<open>\<open>for account in accounts\<close>: the elements of a list, the keys of a dict, the
  characters of a string; anything else is not iterable.\<close>

fun py_iter :: "state \<Rightarrow> pyval \<Rightarrow> error + pyval list" where
  "py_iter s (PyList vs) = Inr vs"
| "py_iter s (Ref a) = Inr (map (\<lambda>kv. PStr (fst kv)) (heap s a))"
| "py_iter s (PStr cs) = Inr (map (\<lambda>c. PStr [c]) cs)"
| "py_iter s _ = Inl (TypeError ''not iterable'')"

text \<open>\<open>account[k] = v\<close> for the dict at address \<open>a\<close>.\<close>

definition setitem :: "state \<Rightarrow> addr \<Rightarrow> string \<Rightarrow> json \<Rightarrow> state" where
  "setitem s a k v = s\<lparr>heap := (heap s)(a := dict_set (heap s a) k v)\<rparr>"

record aggregated =
  identity :: json
  accounts :: pyval

text \<open>The loop of \<open>collect_all_data\<close>. \<open>account.get("id")\<close> reads the dict with
  default \<open>None\<close>; an element that is not a dict has no \<open>get\<close> and raises there.\<close>

fun collect_loop :: "env \<Rightarrow> pyval list \<Rightarrow> state \<Rightarrow> unit result" where
  "collect_loop E [] s = (Inr (), s)"
| "collect_loop E (Ref a # rest) s =
     (let account_id = dict_get (heap s a) ''id'' JNull in
      case get_balances E s account_id of
        (Inl e, s1) \<Rightarrow> (Inl e, s1)
      | (Inr b, s1) \<Rightarrow>
          (case get_transactions E (setitem s1 a ''balances'' b) account_id of
             (Inl e, s2) \<Rightarrow> (Inl e, s2)
           | (Inr t, s2) \<Rightarrow> collect_loop E rest (setitem s2 a ''transactions'' t)))"
| "collect_loop E (_ # rest) s = (Inl (AttributeError ''get''), s)"

definition collect_all_data :: "env \<Rightarrow> state \<Rightarrow> aggregated result" where
  "collect_all_data E s =
     (if use_async s
      then (Inl (RuntimeError ''Use collect_all_data_async for async mode''), s)
      else case get_identity E s of
        (Inl e, s1) \<Rightarrow> (Inl e, s1)
      | (Inr ident, s1) \<Rightarrow>
          (case get_accounts E s1 of
             (Inl e, s2) \<Rightarrow> (Inl e, s2)
           | (Inr accs, s2) \<Rightarrow>
               (case py_iter s2 accs of
                  Inl e \<Rightarrow> (Inl e, s2)
                | Inr items \<Rightarrow>
                    (case collect_loop E items s2 of
                       (Inl e, s3) \<Rightarrow> (Inl e, s3)
                     | (Inr _, s3) \<Rightarrow> (Inr \<lparr> identity = ident, accounts = accs \<rparr>, s3)))))"

fun collect_loop_async :: "env \<Rightarrow> pyval list \<Rightarrow> state \<Rightarrow> unit result" where
  "collect_loop_async E [] s = (Inr (), s)"
| "collect_loop_async E (Ref a # rest) s =
     (let account_id = dict_get (heap s a) ''id'' JNull in
      case get_balances_async E s account_id of
        (Inl e, s1) \<Rightarrow> (Inl e, s1)
      | (Inr b, s1) \<Rightarrow>
          (case get_transactions_async E (setitem s1 a ''balances'' b) account_id of
             (Inl e, s2) \<Rightarrow> (Inl e, s2)
           | (Inr t, s2) \<Rightarrow> collect_loop_async E rest (setitem s2 a ''transactions'' t)))"
| "collect_loop_async E (_ # rest) s = (Inl (AttributeError ''get''), s)"

definition collect_all_data_async :: "env \<Rightarrow> state \<Rightarrow> aggregated result" where
  "collect_all_data_async E s =
     (if \<not> use_async s
      then (Inl (RuntimeError ''Use collect_all_data for sync mode''), s)
      else case get_identity_async E s of
        (Inl e, s1) \<Rightarrow> (Inl e, s1)
      | (Inr ident, s1) \<Rightarrow>
          (case get_accounts_async E s1 of
             (Inl e, s2) \<Rightarrow> (Inl e, s2)
           | (Inr accs, s2) \<Rightarrow>
               (case py_iter s2 accs of
                  Inl e \<Rightarrow> (Inl e, s2)
                | Inr items \<Rightarrow>
                    (case collect_loop_async E items s2 of
                       (Inl e, s3) \<Rightarrow> (Inl e, s3)
                     | (Inr _, s3) \<Rightarrow> (Inr \<lparr> identity = ident, accounts = accs \<rparr>, s3)))))"

section \<open>Notions used in the statements\<close>

text \<open>The request an authenticated fetch of URL \<open>u\<close> puts on the wire.\<close>

definition get_request :: "env \<Rightarrow> state \<Rightarrow> string \<Rightarrow> request" where
  "get_request E s u =
     \<lparr> meth = GET, url = u,
       headers = [(''Authorization'', py_str E (token_type s) @ '' '' @ py_str E (token s)),
                  (''Content-Type'', ''application/json'')],
       form = None \<rparr>"

text \<open>What a fetch returns once its request has been answered.\<close>

definition outcome :: "(response \<Rightarrow> error + unit) \<Rightarrow> error + response \<Rightarrow> error + json" where
  "outcome rfs r =
     (case r of Inl e \<Rightarrow> Inl e
      | Inr resp \<Rightarrow> (case rfs resp of Inl e \<Rightarrow> Inl e | Inr _ \<Rightarrow> json_body resp))"

text \<open>The exception \<open>_get_headers\<close> raises when there is no token.\<close>

definition not_authenticated :: error where
  "not_authenticated = ValueError ''Not authenticated. Call authenticate() first''"

text \<open>Two states agree on every field of the client object.\<close>

definition same_client :: "state \<Rightarrow> state \<Rightarrow> bool" where
  "same_client s s' \<longleftrightarrow>
     base_url s' = base_url s \<and> username s' = username s \<and> password s' = password s \<and>
     use_async s' = use_async s \<and> session s' = session s \<and> token s' = token s \<and>
     token_type s' = token_type s"

text \<open>The URLs of the five fetches.\<close>

definition identity_url :: "state \<Rightarrow> string" where
  "identity_url s = base_url s @ ''/stet/identity''"

definition accounts_url :: "state \<Rightarrow> string" where
  "accounts_url s = base_url s @ ''/stet/account''"

definition account_url :: "env \<Rightarrow> state \<Rightarrow> json \<Rightarrow> string" where
  "account_url E s i = base_url s @ ''/stet/account/'' @ py_str E i"

definition balance_url :: "env \<Rightarrow> state \<Rightarrow> json \<Rightarrow> string" where
  "balance_url E s i = base_url s @ ''/stet/account/'' @ py_str E i @ ''/balance''"

definition transaction_url :: "env \<Rightarrow> state \<Rightarrow> json \<Rightarrow> string" where
  "transaction_url E s i = base_url s @ ''/stet/account/'' @ py_str E i @ ''/transaction''"

text \<open>The order of requests the specification prescribes: identity, the account list,
  then balances and transactions of each account id in turn.\<close>

definition loop_order :: "env \<Rightarrow> state \<Rightarrow> json list \<Rightarrow> request list" where
  "loop_order E s ids =
     concat (map (\<lambda>i. [get_request E s (balance_url E s i),
                        get_request E s (transaction_url E s i)]) ids)"

definition fixed_order :: "env \<Rightarrow> state \<Rightarrow> json list \<Rightarrow> request list" where
  "fixed_order E s ids =
     get_request E s (identity_url s) # get_request E s (accounts_url s) # loop_order E s ids"

text \<open>\<open>account.get("id")\<close> for a record of the list.\<close>

fun account_id :: "state \<Rightarrow> pyval \<Rightarrow> json" where
  "account_id s (Ref a) = dict_get (heap s a) ''id'' JNull"
| "account_id s _ = JNull"

text \<open>A server whose answer to a request does not depend on the requests before it.\<close>

definition stateless :: "env \<Rightarrow> bool" where
  "stateless E \<longleftrightarrow> (\<forall>h h' rq. reply E h rq = reply E h' rq)"

text \<open>What a successful \<open>authenticate\<close> has stored, in terms of the response it got.\<close>

definition token_stored :: "env \<Rightarrow> state \<Rightarrow> json \<Rightarrow> state \<Rightarrow> bool" where
  "token_stored E s tok s' \<longleftrightarrow>
     (\<exists>resp d. reply E (sent s) (token_request s) = Inr resp \<and>
        json_body resp = Inr (JObj d) \<and>
        tok = token s' \<and>
        token s' = dict_get d ''access_token'' JNull \<and>
        token_type s' = dict_get d ''token_type'' (JStr ''bearer'') \<and>
        (\<forall>v. map_of d ''access_token'' = Some v \<longrightarrow> token s' = v) \<and>
        (\<forall>v. map_of d ''token_type'' = Some v \<longrightarrow> token_type s' = v) \<and>
        (map_of d ''token_type'' = None \<longrightarrow> token_type s' = JStr ''bearer''))"

text \<open>The synchronous and the asynchronous collector run the same steps and differ in
  the library call \<open>rfs\<close> only. \<open>collect_with\<close> and \<open>collect_all_with\<close> are those steps
  with the mode checks taken out; the lemmas below relate them to the four functions of
  the source.\<close>

fun collect_with :: "(response \<Rightarrow> error + unit) \<Rightarrow> env \<Rightarrow> pyval list \<Rightarrow> state \<Rightarrow> unit result" where
  "collect_with rfs E [] s = (Inr (), s)"
| "collect_with rfs E (Ref a # rest) s =
     (let account_id = dict_get (heap s a) ''id'' JNull in
      case get_json rfs E s (balance_url E s account_id) of
        (Inl e, s1) \<Rightarrow> (Inl e, s1)
      | (Inr b, s1) \<Rightarrow>
          (case get_json rfs E (setitem s1 a ''balances'' b) (transaction_url E s account_id) of
             (Inl e, s2) \<Rightarrow> (Inl e, s2)
           | (Inr t, s2) \<Rightarrow> collect_with rfs E rest (setitem s2 a ''transactions'' t)))"
| "collect_with rfs E (_ # rest) s = (Inl (AttributeError ''get''), s)"

definition collect_all_with :: "(response \<Rightarrow> error + unit) \<Rightarrow> env \<Rightarrow> state \<Rightarrow> aggregated result" where
  "collect_all_with rfs E s =
     (case get_json rfs E s (identity_url s) of
        (Inl e, s1) \<Rightarrow> (Inl e, s1)
      | (Inr ident, s1) \<Rightarrow>
          (case get_json rfs E s1 (accounts_url s) of
             (Inl e, s2) \<Rightarrow> (Inl e, s2)
           | (Inr j, s2) \<Rightarrow>
               (case load j s2 of
                  (accs, s3) \<Rightarrow>
                    (case py_iter s3 accs of
                       Inl e \<Rightarrow> (Inl e, s3)
                     | Inr items \<Rightarrow>
                         (case collect_with rfs E items s3 of
                            (Inl e, s4) \<Rightarrow> (Inl e, s4)
                          | (Inr _, s4) \<Rightarrow> (Inr \<lparr> identity = ident, accounts = accs \<rparr>, s4))))))"

section \<open>Servers and clients for the examples\<close>

text \<open>A stub server: \<open>tb\<close> is the body of the token endpoint, \<open>accs\<close> the body of the
  account list, and \<open>bad\<close> a URL that answers with status 500. \<open>status_env n b\<close> answers
  every request with status \<open>n\<close> and body \<open>b\<close>.\<close>

definition ok :: "json \<Rightarrow> error + response" where
  "ok j = Inr \<lparr> status_code = 200, json_body = Inr j \<rparr>"

definition stub_reply :: "json \<Rightarrow> json \<Rightarrow> string \<Rightarrow> string \<Rightarrow> error + response" where
  "stub_reply tb accs bad u =
     (if u = bad then Inr \<lparr> status_code = 500, json_body = Inl (DecodeError ''body'') \<rparr>
      else if u = ''https://bank.example/oauth/token'' then ok tb
      else if u = ''https://bank.example/stet/identity'' then ok (JObj [(''id'', JStr ''u1'')])
      else if u = ''https://bank.example/stet/account'' then ok accs
      else if u \<in> set [''https://bank.example/stet/account/a1/balance'',
                        ''https://bank.example/stet/account/a2/balance'',
                        ''https://bank.example/stet/account/a3/balance'',
                        ''https://bank.example/stet/account/None/balance'']
      then ok (JArr [JObj [(''amount'', JNum 100), (''currency'', JStr ''EUR'')]])
      else if u \<in> set [''https://bank.example/stet/account/a1/transaction'',
                        ''https://bank.example/stet/account/a2/transaction'',
                        ''https://bank.example/stet/account/a3/transaction'',
                        ''https://bank.example/stet/account/None/transaction'']
      then ok (JArr [])
      else Inr \<lparr> status_code = 404, json_body = Inl (DecodeError ''body'') \<rparr>)"

definition stub_env :: "json \<Rightarrow> json \<Rightarrow> string \<Rightarrow> env" where
  "stub_env tb accs bad =
     \<lparr> reply = (\<lambda>h rq. stub_reply tb accs bad (url rq)), py_repr = (\<lambda>j. ''...'') \<rparr>"

definition status_env :: "nat \<Rightarrow> error + json \<Rightarrow> env" where
  "status_env n b =
     \<lparr> reply = (\<lambda>h rq. Inr \<lparr> status_code = n, json_body = b \<rparr>), py_repr = (\<lambda>j. ''...'') \<rparr>"

text \<open>A client that has entered its context manager, and the same client with a token
  assigned to it, as the unit tests of the repository set one.\<close>

definition demo_client :: "bool \<Rightarrow> state" where
  "demo_client a =
     (if a then aenter (init ''https://bank.example/'' ''mdupuis'' ''111111'' True)
      else enter (init ''https://bank.example/'' ''mdupuis'' ''111111'' False))"

definition demo_authed :: "bool \<Rightarrow> state" where
  "demo_authed a = (demo_client a)\<lparr>token := JStr ''tok''\<rparr>"

text \<open>Bodies: a token response, and account lists of two and of three accounts and of
  one record without an \<open>id\<close>.\<close>

definition token_body :: json where
  "token_body = JObj [(''access_token'', JStr ''tok''), (''token_type'', JStr ''bearer'')]"

definition two_accounts :: json where
  "two_accounts = JArr [JObj [(''id'', JStr ''a1'')], JObj [(''id'', JStr ''a2'')]]"

definition three_accounts :: json where
  "three_accounts =
     JArr [JObj [(''id'', JStr ''a1'')], JObj [(''id'', JStr ''a2'')],
           JObj [(''id'', JStr ''a3'')]]"

definition no_id_accounts :: json where
  "no_id_accounts = JArr [JObj [(''name'', JStr ''Compte Carte'')]]"

text \<open>A server on which every fetch succeeds, one whose balances endpoint fails for the
  second of three accounts, and one whose account list holds the record without an
  \<open>id\<close>.\<close>

definition good_env :: env where
  "good_env = stub_env token_body two_accounts []"

definition bad_env :: env where
  "bad_env = stub_env token_body three_accounts ''https://bank.example/stet/account/a2/balance''"

definition no_id_env :: env where
  "no_id_env = stub_env token_body no_id_accounts []"

section \<open>Basic facts\<close>

lemma get_json_eq:
  "get_json rfs E s u =
     (if \<not> session s then (Inl (AttributeError ''get''), s)
      else if \<not> py_truthy (token s) then (Inl not_authenticated, s)
      else (outcome rfs (reply E (sent s) (get_request E s u)),
            s\<lparr>sent := sent s @ [get_request E s u]\<rparr>))"
  by (simp add: get_json_def get_headers_def send_def get_request_def outcome_def
      not_authenticated_def split: sum.splits)

lemma same_client_refl [simp]: "same_client s s"
  by (simp add: same_client_def)

lemma same_client_trans: "same_client s t \<Longrightarrow> same_client t u \<Longrightarrow> same_client s u"
  by (simp add: same_client_def)

lemma get_request_same: "same_client s s' \<Longrightarrow> get_request E s' u = get_request E s u"
  by (simp add: same_client_def get_request_def)

lemma get_json_frame:
  assumes "get_json rfs E s u = (r, s')"
  shows "same_client s s'" and "heap s' = heap s" and "fresh s' = fresh s"
  using assms by (auto simp: get_json_eq same_client_def split: if_splits)

lemma get_json_sent:
  assumes "get_json rfs E s u = (r, s')"
  shows "sent s' = sent s \<or> sent s' = sent s @ [get_request E s u]"
    and "r = Inr j \<Longrightarrow> sent s' = sent s @ [get_request E s u]"
  using assms by (auto simp: get_json_eq split: if_splits)

lemma setitem_simps [simp]:
  "same_client s (setitem t a k v) = same_client s t"
  "same_client (setitem t a k v) u = same_client t u"
  "sent (setitem s a k v) = sent s"
  "fresh (setitem s a k v) = fresh s"
  "use_async (setitem s a k v) = use_async s"
  "session (setitem s a k v) = session s"
  "token (setitem s a k v) = token s"
  "token_type (setitem s a k v) = token_type s"
  "base_url (setitem s a k v) = base_url s"
  "heap (setitem s a k v) = (heap s)(a := dict_set (heap s a) k v)"
  by (simp_all add: setitem_def same_client_def)

lemma map_of_dict_set: "map_of (dict_set d k v) = (map_of d)(k \<mapsto> v)"
  by (simp add: dict_set_def update_conv')

lemma dict_get_dict_set:
  "dict_get (dict_set d k v) k' dflt = (if k' = k then v else dict_get d k' dflt)"
  by (simp add: dict_get_def map_of_dict_set)

lemma get_balances_sync:
  "\<not> use_async s \<Longrightarrow> get_balances E s i = get_json raise_for_status E s (balance_url E s i)"
  by (simp add: get_balances_def balance_url_def)

lemma get_transactions_sync:
  "\<not> use_async s \<Longrightarrow>
     get_transactions E s i = get_json raise_for_status E s (transaction_url E s i)"
  by (simp add: get_transactions_def transaction_url_def)

lemma get_balances_frame:
  assumes "get_balances E s i = (r, s')"
  shows "same_client s s'" and "heap s' = heap s" and "fresh s' = fresh s"
  using assms get_json_frame [of raise_for_status E s "balance_url E s i" r s']
  by (auto simp: get_balances_def balance_url_def split: if_splits)

lemma get_transactions_frame:
  assumes "get_transactions E s i = (r, s')"
  shows "same_client s s'" and "heap s' = heap s" and "fresh s' = fresh s"
  using assms get_json_frame [of raise_for_status E s "transaction_url E s i" r s']
  by (auto simp: get_transactions_def transaction_url_def split: if_splits)

lemma get_balances_sent:
  assumes "get_balances E s i = (r, s')"
  shows "sent s' = sent s \<or> sent s' = sent s @ [get_request E s (balance_url E s i)]"
    and "r = Inr j \<Longrightarrow> sent s' = sent s @ [get_request E s (balance_url E s i)]"
  using assms get_json_sent [of raise_for_status E s "balance_url E s i" r s']
  by (auto simp: get_balances_def balance_url_def split: if_splits)

lemma get_transactions_sent:
  assumes "get_transactions E s i = (r, s')"
  shows "sent s' = sent s \<or> sent s' = sent s @ [get_request E s (transaction_url E s i)]"
    and "r = Inr j \<Longrightarrow> sent s' = sent s @ [get_request E s (transaction_url E s i)]"
  using assms get_json_sent [of raise_for_status E s "transaction_url E s i" r s']
  by (auto simp: get_transactions_def transaction_url_def split: if_splits)

lemma collect_with_RefE:
  assumes "collect_with rfs E (Ref a # rest) s = (r, s')"
  obtains
    (balances_fail) e where
      "get_json rfs E s (balance_url E s (account_id s (Ref a))) = (Inl e, s')" "r = Inl e"
  | (transactions_fail) b s1 e where
      "get_json rfs E s (balance_url E s (account_id s (Ref a))) = (Inr b, s1)"
      "get_json rfs E (setitem s1 a ''balances'' b)
         (transaction_url E s (account_id s (Ref a))) = (Inl e, s')"
      "r = Inl e"
  | (continue) b s1 t s2 where
      "get_json rfs E s (balance_url E s (account_id s (Ref a))) = (Inr b, s1)"
      "get_json rfs E (setitem s1 a ''balances'' b)
         (transaction_url E s (account_id s (Ref a))) = (Inr t, s2)"
      "collect_with rfs E rest (setitem s2 a ''transactions'' t) = (r, s')"
  using assms by (auto simp: Let_def split: prod.splits sum.splits)

lemma collect_with_not_Ref:
  "\<forall>a. x \<noteq> Ref a \<Longrightarrow> collect_with rfs E (x # rest) s = (Inl (AttributeError ''get''), s)"
  by (cases x) simp_all

lemma collect_with_frame:
  assumes "collect_with rfs E xs s = (r, s')"
  shows "same_client s s' \<and> fresh s' = fresh s \<and>
         (\<forall>a. Ref a \<notin> set xs \<longrightarrow> heap s' a = heap s a) \<and>
         (\<forall>a k. k \<noteq> ''balances'' \<longrightarrow> k \<noteq> ''transactions'' \<longrightarrow>
                map_of (heap s' a) k = map_of (heap s a) k)"
  using assms
proof (induction xs arbitrary: s)
  case Nil
  then show ?case by simp
next
  case (Cons x xs)
  show ?case
  proof (cases "\<exists>a. x = Ref a")
    case False
    then have "collect_with rfs E (x # xs) s = (Inl (AttributeError ''get''), s)"
      by (simp add: collect_with_not_Ref)
    with Cons.prems show ?thesis by simp
  next
    case True
    then obtain a where x: "x = Ref a" by blast
    from Cons.prems [unfolded x] show ?thesis
    proof (cases rule: collect_with_RefE)
      case (balances_fail e)
      from get_json_frame [OF balances_fail(1)] show ?thesis by simp
    next
      case (transactions_fail b s1 e)
      note b = get_json_frame [OF transactions_fail(1)]
      note t = get_json_frame [OF transactions_fail(2)]
      have "same_client s s'"
        using b(1) t(1) by (auto intro: same_client_trans)
      moreover have "fresh s' = fresh s"
        using b(3) t(3) by simp
      moreover have "heap s' = (heap s)(a := dict_set (heap s a) ''balances'' b)"
        using b(2) t(2) by simp
      ultimately show ?thesis
        by (simp add: x map_of_dict_set)
    next
      case (continue b s1 t s2)
      note b = get_json_frame [OF continue(1)]
      note t = get_json_frame [OF continue(2)]
      note ih = Cons.IH [OF continue(3)]
      have "same_client s s2"
        using b(1) t(1) by (auto intro: same_client_trans)
      with ih have "same_client s s'"
        by (auto intro: same_client_trans)
      moreover have "fresh s' = fresh s"
        using b(3) t(3) ih by simp
      moreover have h2: "heap s2 = (heap s)(a := dict_set (heap s a) ''balances'' b)"
        using b(2) t(2) by simp
      have "\<forall>c. Ref c \<notin> set (x # xs) \<longrightarrow> heap s' c = heap s c"
        using ih h2 by (simp add: x)
      moreover have "\<forall>c k. k \<noteq> ''balances'' \<longrightarrow> k \<noteq> ''transactions'' \<longrightarrow>
                map_of (heap s' c) k = map_of (heap s c) k"
        using ih h2 by (simp add: map_of_dict_set)
      ultimately show ?thesis by blast
    qed
  qed
qed

lemma same_client_use_async: "same_client s s' \<Longrightarrow> use_async s' = use_async s"
  by (simp add: same_client_def)

lemma same_client_urls:
  "same_client s s' \<Longrightarrow> balance_url E s' i = balance_url E s i"
  "same_client s s' \<Longrightarrow> transaction_url E s' i = transaction_url E s i"
  "same_client s s' \<Longrightarrow> identity_url s' = identity_url s"
  "same_client s s' \<Longrightarrow> accounts_url s' = accounts_url s"
  by (simp_all add: same_client_def balance_url_def transaction_url_def identity_url_def
      accounts_url_def)

lemma collect_loop_not_Ref:
  "\<forall>a. x \<noteq> Ref a \<Longrightarrow> collect_loop E (x # rest) s = (Inl (AttributeError ''get''), s)"
  by (cases x) simp_all

lemma collect_loop_sync:
  "\<not> use_async s \<Longrightarrow> collect_loop E xs s = collect_with raise_for_status E xs s"
proof (induction xs arbitrary: s)
  case Nil
  show ?case by simp
next
  case (Cons x xs)
  show ?case
  proof (cases "\<exists>a. x = Ref a")
    case False
    then show ?thesis by (simp add: collect_loop_not_Ref collect_with_not_Ref)
  next
    case True
    then obtain a where x: "x = Ref a" by blast
    let ?i = "dict_get (heap s a) ''id'' JNull"
    obtain rb s1 where gb: "get_json raise_for_status E s (balance_url E s ?i) = (rb, s1)"
      by fastforce
    have gbs: "get_balances E s ?i = (rb, s1)"
      using Cons.prems gb by (simp add: get_balances_sync)
    show ?thesis
    proof (cases rb)
      case (Inl e)
      with gb gbs show ?thesis by (simp add: x)
    next
      case (Inr b)
      let ?s1 = "setitem s1 a ''balances'' b"
      have sc1: "same_client s ?s1"
        using get_json_frame(1) [OF gb] by simp
      have m1: "\<not> use_async ?s1"
        using sc1 Cons.prems by (simp add: same_client_def)
      obtain rt s2 where gt: "get_json raise_for_status E ?s1 (transaction_url E s ?i) = (rt, s2)"
        by fastforce
      have gts: "get_transactions E ?s1 ?i = (rt, s2)"
        using m1 gt same_client_urls(2) [OF sc1] by (simp add: get_transactions_sync)
      show ?thesis
      proof (cases rt)
        case (Inl e)
        with gb gbs gt gts Inr show ?thesis by (simp add: x)
      next
        case t: (Inr t)
        have "same_client ?s1 s2"
          using get_json_frame(1) [OF gt] .
        with m1 have "\<not> use_async (setitem s2 a ''transactions'' t)"
          by (simp add: same_client_def)
        from Cons.IH [OF this] gb gbs gt gts Inr t show ?thesis by (simp add: x)
      qed
    qed
  qed
qed

lemma get_balances_async_eq:
  "use_async s \<Longrightarrow>
     get_balances_async E s i = get_json raise_for_status_async E s (balance_url E s i)"
  by (simp add: get_balances_async_def balance_url_def)

lemma get_transactions_async_eq:
  "use_async s \<Longrightarrow>
     get_transactions_async E s i = get_json raise_for_status_async E s (transaction_url E s i)"
  by (simp add: get_transactions_async_def transaction_url_def)

lemma collect_loop_async_not_Ref:
  "\<forall>a. x \<noteq> Ref a \<Longrightarrow> collect_loop_async E (x # rest) s = (Inl (AttributeError ''get''), s)"
  by (cases x) simp_all

lemma collect_loop_async_eq:
  "use_async s \<Longrightarrow> collect_loop_async E xs s = collect_with raise_for_status_async E xs s"
proof (induction xs arbitrary: s)
  case Nil
  show ?case by simp
next
  case (Cons x xs)
  show ?case
  proof (cases "\<exists>a. x = Ref a")
    case False
    then show ?thesis by (simp add: collect_loop_async_not_Ref collect_with_not_Ref)
  next
    case True
    then obtain a where x: "x = Ref a" by blast
    let ?i = "dict_get (heap s a) ''id'' JNull"
    obtain rb s1
      where gb: "get_json raise_for_status_async E s (balance_url E s ?i) = (rb, s1)"
      by fastforce
    have gbs: "get_balances_async E s ?i = (rb, s1)"
      using Cons.prems gb by (simp add: get_balances_async_eq)
    show ?thesis
    proof (cases rb)
      case (Inl e)
      with gb gbs show ?thesis by (simp add: x)
    next
      case (Inr b)
      let ?s1 = "setitem s1 a ''balances'' b"
      have sc1: "same_client s ?s1"
        using get_json_frame(1) [OF gb] by simp
      have m1: "use_async ?s1"
        using sc1 Cons.prems by (simp add: same_client_def)
      obtain rt s2
        where gt: "get_json raise_for_status_async E ?s1 (transaction_url E s ?i) = (rt, s2)"
        by fastforce
      have gts: "get_transactions_async E ?s1 ?i = (rt, s2)"
        using m1 gt same_client_urls(2) [OF sc1] by (simp add: get_transactions_async_eq)
      show ?thesis
      proof (cases rt)
        case (Inl e)
        with gb gbs gt gts Inr show ?thesis by (simp add: x)
      next
        case t: (Inr t)
        have "same_client ?s1 s2"
          using get_json_frame(1) [OF gt] .
        with m1 have "use_async (setitem s2 a ''transactions'' t)"
          by (simp add: same_client_def)
        from Cons.IH [OF this] gb gbs gt gts Inr t show ?thesis by (simp add: x)
      qed
    qed
  qed
qed

lemma load_frame:
  "load j s = (v, s') \<Longrightarrow> same_client s s' \<and> sent s' = sent s"
  "load_list js s = (vs, s') \<Longrightarrow> same_client s s' \<and> sent s' = sent s"
proof (induction j s and js s arbitrary: v s' and vs s' rule: load_load_list.induct)
  case (6 js s)
  then show ?case by (auto split: prod.splits)
next
  case (8 j js s)
  from "8.prems" obtain v1 s1 vs2 where
    l1: "load j s = (v1, s1)" and l2: "load_list js s1 = (vs2, s')"
    by (auto split: prod.splits)
  from "8.IH"(1) [OF l1] "8.IH"(2) [OF l1 [symmetric] l2] show ?case
    by (auto intro: same_client_trans)
qed (auto simp: same_client_def)

lemma collect_all_data_sync:
  assumes "\<not> use_async s"
  shows "collect_all_data E s = collect_all_with raise_for_status E s"
proof -
  have id: "get_identity E s = get_json raise_for_status E s (identity_url s)"
    using assms by (simp add: get_identity_def identity_url_def)
  have acc: "get_accounts E s1 =
      (case get_json raise_for_status E s1 (accounts_url s) of
         (Inl e, s2) \<Rightarrow> (Inl e, s2)
       | (Inr j, s2) \<Rightarrow> (case load j s2 of (v, s3) \<Rightarrow> (Inr v, s3)))"
    if "same_client s s1" for s1
    using that assms by (simp add: get_accounts_def accounts_url_def same_client_def)
  have loop: "collect_loop E items s3 = collect_with raise_for_status E items s3"
    if "same_client s s3" for items s3
    using that assms by (simp add: collect_loop_sync same_client_def)
  show ?thesis
  proof (cases "get_json raise_for_status E s (identity_url s)")
    case (Pair ri s1)
    note sc1 = get_json_frame(1) [OF Pair]
    show ?thesis
    proof (cases ri)
      case (Inl e)
      with Pair id assms show ?thesis
        by (simp add: collect_all_data_def collect_all_with_def)
    next
      case (Inr ident)
      show ?thesis
      proof (cases "get_json raise_for_status E s1 (accounts_url s)")
        case p2: (Pair ra s2)
        note sc2 = same_client_trans [OF sc1 get_json_frame(1) [OF p2]]
        show ?thesis
        proof (cases ra)
          case (Inl e)
          with Pair id assms Inr p2 acc [OF sc1] show ?thesis
            by (simp add: collect_all_data_def collect_all_with_def)
        next
          case j: (Inr j)
          obtain accs s3 where l: "load j s2 = (accs, s3)" by fastforce
          note sc3 = same_client_trans [OF sc2 conjunct1 [OF load_frame(1) [OF l]]]
          from Pair id assms Inr p2 acc [OF sc1] j l loop [OF sc3] show ?thesis
            by (simp add: collect_all_data_def collect_all_with_def split: sum.splits)
        qed
      qed
    qed
  qed
qed

lemma collect_all_data_async_eq:
  assumes "use_async s"
  shows "collect_all_data_async E s = collect_all_with raise_for_status_async E s"
proof -
  have id: "get_identity_async E s = get_json raise_for_status_async E s (identity_url s)"
    using assms by (simp add: get_identity_async_def identity_url_def)
  have acc: "get_accounts_async E s1 =
      (case get_json raise_for_status_async E s1 (accounts_url s) of
         (Inl e, s2) \<Rightarrow> (Inl e, s2)
       | (Inr j, s2) \<Rightarrow> (case load j s2 of (v, s3) \<Rightarrow> (Inr v, s3)))"
    if "same_client s s1" for s1
    using that assms by (simp add: get_accounts_async_def accounts_url_def same_client_def)
  have loop: "collect_loop_async E items s3 = collect_with raise_for_status_async E items s3"
    if "same_client s s3" for items s3
    using that assms by (simp add: collect_loop_async_eq same_client_def)
  show ?thesis
  proof (cases "get_json raise_for_status_async E s (identity_url s)")
    case (Pair ri s1)
    note sc1 = get_json_frame(1) [OF Pair]
    show ?thesis
    proof (cases ri)
      case (Inl e)
      with Pair id assms show ?thesis
        by (simp add: collect_all_data_async_def collect_all_with_def)
    next
      case (Inr ident)
      show ?thesis
      proof (cases "get_json raise_for_status_async E s1 (accounts_url s)")
        case p2: (Pair ra s2)
        note sc2 = same_client_trans [OF sc1 get_json_frame(1) [OF p2]]
        show ?thesis
        proof (cases ra)
          case (Inl e)
          with Pair id assms Inr p2 acc [OF sc1] show ?thesis
            by (simp add: collect_all_data_async_def collect_all_with_def)
        next
          case j: (Inr j)
          obtain accs s3 where l: "load j s2 = (accs, s3)" by fastforce
          note sc3 = same_client_trans [OF sc2 conjunct1 [OF load_frame(1) [OF l]]]
          from Pair id assms Inr p2 acc [OF sc1] j l loop [OF sc3] show ?thesis
            by (simp add: collect_all_data_async_def collect_all_with_def split: sum.splits)
        qed
      qed
    qed
  qed
qed

lemma collect_all_with_frame:
  assumes "collect_all_with rfs E s = (r, s')"
  shows "same_client s s'"
proof -
  obtain ri s1 where g1: "get_json rfs E s (identity_url s) = (ri, s1)" by fastforce
  note sc1 = get_json_frame(1) [OF g1]
  show ?thesis
  proof (cases ri)
    case (Inl e)
    with assms g1 sc1 show ?thesis by (simp add: collect_all_with_def)
  next
    case (Inr ident)
    obtain ra s2 where g2: "get_json rfs E s1 (accounts_url s) = (ra, s2)" by fastforce
    note sc2 = same_client_trans [OF sc1 get_json_frame(1) [OF g2]]
    show ?thesis
    proof (cases ra)
      case (Inl e)
      with assms g1 g2 Inr sc2 show ?thesis by (simp add: collect_all_with_def)
    next
      case j: (Inr j)
      obtain accs s3 where l: "load j s2 = (accs, s3)" by fastforce
      note sc3 = same_client_trans [OF sc2 conjunct1 [OF load_frame(1) [OF l]]]
      show ?thesis
      proof (cases "py_iter s3 accs")
        case (Inl e)
        with assms g1 g2 Inr j l sc3 show ?thesis by (simp add: collect_all_with_def)
      next
        case items: (Inr items)
        obtain rl s4 where c: "collect_with rfs E items s3 = (rl, s4)" by fastforce
        from collect_with_frame [OF c] sc3 have "same_client s s4"
          by (auto intro: same_client_trans)
        with assms g1 g2 Inr j l items c show ?thesis
          by (auto simp: collect_all_with_def split: sum.splits)
      qed
    qed
  qed
qed

lemma request_token_mode: "use_async (snd (request_token rfs E s)) = use_async s"
  by (simp add: request_token_def send_def split: sum.splits)

lemma get_json_mode: "use_async (snd (get_json rfs E s u)) = use_async s"
  by (simp add: get_json_eq)

lemma load_mode: "use_async (snd (load j s)) = use_async s"
  using load_frame(1) [of j s "fst (load j s)" "snd (load j s)"]
  by (simp add: same_client_def)

lemma collect_all_with_mode: "use_async (snd (collect_all_with rfs E s)) = use_async s"
  using collect_all_with_frame [of rfs E s "fst (collect_all_with rfs E s)"
      "snd (collect_all_with rfs E s)"]
  by (simp add: same_client_def)

lemma get_accounts_frame:
  assumes "get_accounts E s = (r, s')"
  shows "same_client s s'" and "sent s' = sent s \<or> sent s' = sent s @ [get_request E s (accounts_url s)]"
proof -
  have "same_client s s' \<and>
        (sent s' = sent s \<or> sent s' = sent s @ [get_request E s (accounts_url s)])"
  proof (cases "use_async s")
    case True
    with assms show ?thesis by (simp add: get_accounts_def)
  next
    case False
    obtain rj s1 where g: "get_json raise_for_status E s (accounts_url s) = (rj, s1)"
      by fastforce
    note f = get_json_frame(1) [OF g] get_json_sent(1) [OF g]
    show ?thesis
    proof (cases rj)
      case (Inl e)
      with assms g False f show ?thesis
        by (simp add: get_accounts_def accounts_url_def)
    next
      case (Inr j)
      obtain v s2 where l: "load j s1 = (v, s2)" by fastforce
      from load_frame(1) [OF l] f have "same_client s s2"
        and "sent s2 = sent s \<or> sent s2 = sent s @ [get_request E s (accounts_url s)]"
        by (auto intro: same_client_trans)
      with assms g False Inr l show ?thesis
        by (simp add: get_accounts_def accounts_url_def)
    qed
  qed
  then show "same_client s s'"
    and "sent s' = sent s \<or> sent s' = sent s @ [get_request E s (accounts_url s)]"
    by simp_all
qed

lemma get_accounts_async_frame:
  assumes "get_accounts_async E s = (r, s')"
  shows "same_client s s'"
proof (cases "use_async s")
  case False
  with assms show ?thesis by (simp add: get_accounts_async_def)
next
  case True
  obtain rj s1 where g: "get_json raise_for_status_async E s (accounts_url s) = (rj, s1)"
    by fastforce
  note f = get_json_frame(1) [OF g]
  show ?thesis
  proof (cases rj)
    case (Inl e)
    with assms g True f show ?thesis
      by (simp add: get_accounts_async_def accounts_url_def)
  next
    case (Inr j)
    obtain v s2 where l: "load j s1 = (v, s2)" by fastforce
    from load_frame(1) [OF l] f have "same_client s s2"
      by (auto intro: same_client_trans)
    with assms g True Inr l show ?thesis
      by (simp add: get_accounts_async_def accounts_url_def)
  qed
qed

lemma get_accounts_mode:
  "use_async (snd (get_accounts E s)) = use_async s"
  "use_async (snd (get_accounts_async E s)) = use_async s"
  using get_accounts_frame(1) [of E s "fst (get_accounts E s)" "snd (get_accounts E s)"]
    get_accounts_async_frame [of E s "fst (get_accounts_async E s)"
      "snd (get_accounts_async E s)"]
  by (simp_all add: same_client_def)

lemma collect_all_data_mode:
  "use_async (snd (collect_all_data E s)) = use_async s"
  "use_async (snd (collect_all_data_async E s)) = use_async s"
proof -
  show "use_async (snd (collect_all_data E s)) = use_async s"
  proof (cases "use_async s")
    case True
    then show ?thesis by (simp add: collect_all_data_def)
  next
    case False
    then show ?thesis by (simp add: collect_all_data_sync collect_all_with_mode)
  qed
  show "use_async (snd (collect_all_data_async E s)) = use_async s"
  proof (cases "use_async s")
    case False
    then show ?thesis by (simp add: collect_all_data_async_def)
  next
    case True
    then show ?thesis by (simp add: collect_all_data_async_eq collect_all_with_mode)
  qed
qed

lemma gateway_modes:
  "use_async (snd (authenticate E s)) = use_async s"
  "use_async (snd (authenticate_async E s)) = use_async s"
  "use_async (snd (get_identity E s)) = use_async s"
  "use_async (snd (get_identity_async E s)) = use_async s"
  "use_async (snd (get_account E s i)) = use_async s"
  "use_async (snd (get_account_async E s i)) = use_async s"
  "use_async (snd (get_balances E s i)) = use_async s"
  "use_async (snd (get_balances_async E s i)) = use_async s"
  "use_async (snd (get_transactions E s i)) = use_async s"
  "use_async (snd (get_transactions_async E s i)) = use_async s"
  by (simp_all add: authenticate_def authenticate_async_def
        get_identity_def get_identity_async_def
        get_account_def get_account_async_def get_balances_def get_balances_async_def
        get_transactions_def get_transactions_async_def request_token_mode get_json_mode)

section \<open>The two modes\<close>

text \<open>
  Claim C8. Every blocking operation (\<open>authenticate\<close>, the five fetches and
  \<open>collect_all_data\<close>) called on an instance built with \<open>use_async=True\<close> raises the
  mode-mismatch \<open>RuntimeError\<close> and leaves the state as it was; every suspending
  operation called on a blocking instance does the same. No operation changes
  \<open>use_async\<close>: the mode is the one given at construction.
\<close>

theorem mode_mismatch:
  "(use_async s \<longrightarrow>
      authenticate E s = (Inl (RuntimeError ''Use authenticate_async for async mode''), s) \<and>
      get_identity E s = (Inl (RuntimeError ''Use get_identity_async for async mode''), s) \<and>
      get_accounts E s = (Inl (RuntimeError ''Use get_accounts_async for async mode''), s) \<and>
      get_account E s i = (Inl (RuntimeError ''Use get_account_async for async mode''), s) \<and>
      get_balances E s i = (Inl (RuntimeError ''Use get_balances_async for async mode''), s) \<and>
      get_transactions E s i =
        (Inl (RuntimeError ''Use get_transactions_async for async mode''), s) \<and>
      collect_all_data E s =
        (Inl (RuntimeError ''Use collect_all_data_async for async mode''), s)) \<and>
   (\<not> use_async s \<longrightarrow>
      authenticate_async E s = (Inl (RuntimeError ''Use authenticate for sync mode''), s) \<and>
      get_identity_async E s = (Inl (RuntimeError ''Use get_identity for sync mode''), s) \<and>
      get_accounts_async E s = (Inl (RuntimeError ''Use get_accounts for sync mode''), s) \<and>
      get_account_async E s i = (Inl (RuntimeError ''Use get_account for sync mode''), s) \<and>
      get_balances_async E s i = (Inl (RuntimeError ''Use get_balances for sync mode''), s) \<and>
      get_transactions_async E s i =
        (Inl (RuntimeError ''Use get_transactions for sync mode''), s) \<and>
      collect_all_data_async E s =
        (Inl (RuntimeError ''Use collect_all_data for sync mode''), s)) \<and>
   use_async (snd (authenticate E s)) = use_async s \<and>
   use_async (snd (authenticate_async E s)) = use_async s \<and>
   use_async (snd (get_identity E s)) = use_async s \<and>
   use_async (snd (get_identity_async E s)) = use_async s \<and>
   use_async (snd (get_accounts E s)) = use_async s \<and>
   use_async (snd (get_accounts_async E s)) = use_async s \<and>
   use_async (snd (get_account E s i)) = use_async s \<and>
   use_async (snd (get_account_async E s i)) = use_async s \<and>
   use_async (snd (get_balances E s i)) = use_async s \<and>
   use_async (snd (get_balances_async E s i)) = use_async s \<and>
   use_async (snd (get_transactions E s i)) = use_async s \<and>
   use_async (snd (get_transactions_async E s i)) = use_async s \<and>
   use_async (snd (collect_all_data E s)) = use_async s \<and>
   use_async (snd (collect_all_data_async E s)) = use_async s"
proof -
  have blocking: "use_async s \<longrightarrow>
      authenticate E s = (Inl (RuntimeError ''Use authenticate_async for async mode''), s) \<and>
      get_identity E s = (Inl (RuntimeError ''Use get_identity_async for async mode''), s) \<and>
      get_accounts E s = (Inl (RuntimeError ''Use get_accounts_async for async mode''), s) \<and>
      get_account E s i = (Inl (RuntimeError ''Use get_account_async for async mode''), s) \<and>
      get_balances E s i = (Inl (RuntimeError ''Use get_balances_async for async mode''), s) \<and>
      get_transactions E s i =
        (Inl (RuntimeError ''Use get_transactions_async for async mode''), s) \<and>
      collect_all_data E s =
        (Inl (RuntimeError ''Use collect_all_data_async for async mode''), s)"
    by (simp add: authenticate_def get_identity_def get_accounts_def get_account_def
        get_balances_def get_transactions_def collect_all_data_def)
  have suspending: "\<not> use_async s \<longrightarrow>
      authenticate_async E s = (Inl (RuntimeError ''Use authenticate for sync mode''), s) \<and>
      get_identity_async E s = (Inl (RuntimeError ''Use get_identity for sync mode''), s) \<and>
      get_accounts_async E s = (Inl (RuntimeError ''Use get_accounts for sync mode''), s) \<and>
      get_account_async E s i = (Inl (RuntimeError ''Use get_account for sync mode''), s) \<and>
      get_balances_async E s i = (Inl (RuntimeError ''Use get_balances for sync mode''), s) \<and>
      get_transactions_async E s i =
        (Inl (RuntimeError ''Use get_transactions for sync mode''), s) \<and>
      collect_all_data_async E s =
        (Inl (RuntimeError ''Use collect_all_data for sync mode''), s)"
    by (simp add: authenticate_async_def get_identity_async_def get_accounts_async_def
        get_account_async_def get_balances_async_def get_transactions_async_def
        collect_all_data_async_def)
  from blocking suspending show ?thesis
    by (simp only: gateway_modes get_accounts_mode collect_all_data_mode simp_thms)
qed

theorem mode_mismatch_witness:
  "use_async (demo_client True) \<and>
   fst (authenticate (stub_env JNull JNull []) (demo_client True)) =
     Inl (RuntimeError ''Use authenticate_async for async mode'') \<and>
   fst (collect_all_data (stub_env JNull JNull []) (demo_client True)) =
     Inl (RuntimeError ''Use collect_all_data_async for async mode'') \<and>
   \<not> use_async (demo_client False) \<and>
   fst (get_balances_async (stub_env JNull JNull []) (demo_client False) (JStr ''a1'')) =
     Inl (RuntimeError ''Use get_balances for sync mode'') \<and>
   use_async (snd (get_identity (stub_env JNull JNull []) (demo_client False))) = False"
proof -
  have t: "use_async (demo_client True)" and f: "\<not> use_async (demo_client False)"
    by (simp_all add: demo_client_def aenter_def enter_def init_def)
  from mode_mismatch [of "demo_client True" "stub_env JNull JNull []" "JStr ''a1''"]
    mode_mismatch [of "demo_client False" "stub_env JNull JNull []" "JStr ''a1''"] t f
  show ?thesis by simp
qed

section \<open>Failure of a fetch\<close>

lemma collect_loop_append:
  "collect_loop E (xs @ ys) s =
     (case collect_loop E xs s of
        (Inl e, s') \<Rightarrow> (Inl e, s')
      | (Inr u, s') \<Rightarrow> collect_loop E ys s')"
proof (induction xs arbitrary: s)
  case Nil
  show ?case by simp
next
  case (Cons x xs)
  show ?case
  proof (cases "\<exists>a. x = Ref a")
    case False
    then show ?thesis by (simp add: collect_loop_not_Ref)
  next
    case True
    then obtain a where "x = Ref a" by blast
    then show ?thesis
      by (simp add: Cons.IH Let_def split: prod.splits sum.splits)
  qed
qed


lemmas demo_defs =
  stub_env_def stub_reply_def ok_def demo_authed_def demo_client_def
  init_def enter_def aenter_def rstrip_slash_def token_body_def three_accounts_def

lemmas run_defs =
  collect_all_data_def get_identity_def get_accounts_def get_balances_def
  get_transactions_def get_json_def get_headers_def send_def raise_for_status_def
  setitem_def dict_get_def dict_set_def Let_def


section \<open>The order of requests\<close>

lemma account_id_cong:
  "(\<And>c. map_of (heap s' c) ''id'' = map_of (heap s c) ''id'') \<Longrightarrow>
     account_id s' x = account_id s x"
  by (cases x) (simp_all add: dict_get_def)

lemma loop_order_same: "same_client s s' \<Longrightarrow> loop_order E s' ids = loop_order E s ids"
  by (simp add: loop_order_def get_request_same same_client_urls)

lemma loop_order_Cons:
  "loop_order E s (i # ids) =
     get_request E s (balance_url E s i) # get_request E s (transaction_url E s i) #
     loop_order E s ids"
  by (simp add: loop_order_def)

lemma collect_with_order:
  assumes "collect_with rfs E xs s = (r, s')"
  shows "prefix (sent s') (sent s @ loop_order E s (map (account_id s) xs)) \<and>
         (r = Inr () \<longrightarrow> sent s' = sent s @ loop_order E s (map (account_id s) xs))"
  using assms
proof (induction xs arbitrary: s)
  case Nil
  then show ?case by (simp add: loop_order_def)
next
  case (Cons x xs)
  show ?case
  proof (cases "\<exists>a. x = Ref a")
    case False
    then have "collect_with rfs E (x # xs) s = (Inl (AttributeError ''get''), s)"
      by (simp add: collect_with_not_Ref)
    with Cons.prems show ?thesis by auto
  next
    case True
    then obtain a where x: "x = Ref a" by blast
    let ?i = "account_id s (Ref a)"
    let ?rb = "get_request E s (balance_url E s ?i)"
    let ?rt = "get_request E s (transaction_url E s ?i)"
    let ?tail = "loop_order E s (map (account_id s) xs)"
    from Cons.prems [unfolded x] show ?thesis
    proof (cases rule: collect_with_RefE)
      case (balances_fail e)
      from get_json_sent(1) [OF balances_fail(1)] balances_fail(2) show ?thesis
        by (auto simp: x loop_order_Cons)
    next
      case (transactions_fail b s1 e)
      have s1: "sent s1 = sent s @ [?rb]"
        using get_json_sent(2) [OF transactions_fail(1)] by simp
      have "same_client s (setitem s1 a ''balances'' b)"
        using get_json_frame(1) [OF transactions_fail(1)] by simp
      then have "get_request E (setitem s1 a ''balances'' b) (transaction_url E s ?i) = ?rt"
        by (rule get_request_same)
      with get_json_sent(1) [OF transactions_fail(2)] s1
      have "sent s' = sent s @ [?rb] \<or> sent s' = sent s @ [?rb, ?rt]"
        by auto
      with transactions_fail(3) show ?thesis
        by (auto simp: x loop_order_Cons)
    next
      case (continue b s1 t s2)
      let ?s3 = "setitem s2 a ''transactions'' t"
      note fb = get_json_frame [OF continue(1)]
      note ft = get_json_frame [OF continue(2)]
      have s1: "sent s1 = sent s @ [?rb]"
        using get_json_sent(2) [OF continue(1)] by simp
      have sc1: "same_client s (setitem s1 a ''balances'' b)"
        using fb(1) by simp
      then have "get_request E (setitem s1 a ''balances'' b) (transaction_url E s ?i) = ?rt"
        by (rule get_request_same)
      with get_json_sent(2) [OF continue(2)] s1
      have s3: "sent ?s3 = sent s @ [?rb, ?rt]"
        by simp
      have sc3: "same_client s ?s3"
        using same_client_trans [OF sc1 ft(1)] by simp
      have "map_of (heap ?s3 c) ''id'' = map_of (heap s c) ''id''" for c
        using fb(2) ft(2) by (simp add: map_of_dict_set)
      then have "account_id ?s3 y = account_id s y" for y
        by (rule account_id_cong)
      then have ids: "map (account_id ?s3) xs = map (account_id s) xs"
        by simp
      from Cons.IH [OF continue(3)] show ?thesis
        using s3 ids loop_order_same [OF sc3] by (simp add: x loop_order_Cons)
    qed
  qed
qed

lemma fixed_order_same: "same_client s s' \<Longrightarrow> fixed_order E s' ids = fixed_order E s ids"
  by (simp add: fixed_order_def loop_order_same get_request_same same_client_urls)

lemma collect_with_account_id:
  assumes "collect_with rfs E xs s = (r, s')"
  shows "account_id s' x = account_id s x"
  using collect_with_frame [OF assms] by (intro account_id_cong) simp

lemma py_iter_after_loop:
  assumes "collect_with rfs E items s = (Inr u, s')" and "py_iter s accs = Inr items"
  shows "py_iter s' accs = Inr items"
proof (cases accs)
  case (Ref a)
  show ?thesis
  proof (cases "heap s a")
    case Nil
    with assms Ref show ?thesis by auto
  next
    case (Cons kv kvs)
    with assms Ref show ?thesis by auto
  qed
qed (use assms in auto)

lemma collect_all_with_prefix:
  assumes "collect_all_with rfs E s = (r, s')"
    and "get_json rfs E s (identity_url s) = (Inr ident, s1)"
    and "get_json rfs E s1 (accounts_url s) = (Inr j, s2)"
    and "load j s2 = (accs, s3)"
    and "py_iter s3 accs = Inr items"
  shows "prefix (sent s') (sent s @ fixed_order E s (map (account_id s3) items))"
proof -
  obtain rl where loop: "collect_with rfs E items s3 = (rl, s')"
    using assms by (auto simp: collect_all_with_def split: prod.splits sum.splits)
  note f1 = get_json_frame(1) [OF assms(2)]
  note f2 = same_client_trans [OF f1 get_json_frame(1) [OF assms(3)]]
  note f3 = same_client_trans [OF f2 conjunct1 [OF load_frame(1) [OF assms(4)]]]
  have "sent s1 = sent s @ [get_request E s (identity_url s)]"
    using get_json_sent(2) [OF assms(2)] by simp
  moreover have "sent s2 = sent s1 @ [get_request E s (accounts_url s)]"
    using get_json_sent(2) [OF assms(3)] get_request_same [OF f1] by simp
  moreover have "sent s3 = sent s2"
    using load_frame(1) [OF assms(4)] by simp
  ultimately have
    "sent s3 @ loop_order E s3 (map (account_id s3) items) =
     sent s @ fixed_order E s (map (account_id s3) items)"
    by (simp add: fixed_order_def loop_order_same [OF f3])
  with collect_with_order [OF loop] show ?thesis by simp
qed

lemma collect_all_with_success:
  assumes "collect_all_with rfs E s = (Inr res, s')"
  shows "\<exists>items. py_iter s' (accounts res) = Inr items \<and>
           sent s' = sent s @ fixed_order E s (map (account_id s') items)"
proof -
  from assms obtain ident s1 j s2 accs s3 items u where
    g1: "get_json rfs E s (identity_url s) = (Inr ident, s1)" and
    g2: "get_json rfs E s1 (accounts_url s) = (Inr j, s2)" and
    l: "load j s2 = (accs, s3)" and
    it: "py_iter s3 accs = Inr items" and
    loop: "collect_with rfs E items s3 = (Inr u, s')" and
    res: "res = \<lparr> identity = ident, accounts = accs \<rparr>"
    by (auto simp: collect_all_with_def split: prod.splits sum.splits)
  note f1 = get_json_frame(1) [OF g1]
  note f2 = same_client_trans [OF f1 get_json_frame(1) [OF g2]]
  note f3 = same_client_trans [OF f2 conjunct1 [OF load_frame(1) [OF l]]]
  have "sent s1 = sent s @ [get_request E s (identity_url s)]"
    using get_json_sent(2) [OF g1] by simp
  moreover have "sent s2 = sent s1 @ [get_request E s (accounts_url s)]"
    using get_json_sent(2) [OF g2] get_request_same [OF f1] by simp
  moreover have "sent s3 = sent s2"
    using load_frame(1) [OF l] by simp
  ultimately have
    "sent s3 @ loop_order E s3 (map (account_id s3) items) =
     sent s @ fixed_order E s (map (account_id s3) items)"
    by (simp add: fixed_order_def loop_order_same [OF f3])
  moreover have "sent s' = sent s3 @ loop_order E s3 (map (account_id s3) items)"
    using collect_with_order [OF loop] by simp
  moreover have "account_id s' = account_id s3"
    by (rule ext) (rule collect_with_account_id [OF loop])
  moreover have "py_iter s' (accounts res) = Inr items"
    using py_iter_after_loop [OF loop it] by (simp add: res)
  ultimately show ?thesis by simp
qed

lemma get_json_load_frame:
  assumes "(case get_json rfs E s u of
              (Inl e, s1) \<Rightarrow> (Inl e, s1)
            | (Inr j, s1) \<Rightarrow> (case load j s1 of (v, s2) \<Rightarrow> (Inr v, s2))) = (Inr accs, s')"
  obtains j sj where "get_json rfs E s u = (Inr j, sj)" "load j sj = (accs, s')"
  using assms by (auto split: prod.splits sum.splits)

lemma collect_all_data_prefix:
  assumes "get_identity E s = (Inr ident, s1)" and "get_accounts E s1 = (Inr accs, s2)"
    and "py_iter s2 accs = Inr items" and "collect_all_data E s = (r, s')"
  shows "prefix (sent s') (sent s @ fixed_order E s (map (account_id s2) items))"
proof -
  have m: "\<not> use_async s"
    using assms(1) by (auto simp: get_identity_def split: if_splits)
  have g1: "get_json raise_for_status E s (identity_url s) = (Inr ident, s1)"
    using assms(1) m by (simp add: get_identity_def identity_url_def)
  note f1 = get_json_frame(1) [OF g1]
  have m1: "\<not> use_async s1"
    using f1 m by (simp add: same_client_def)
  from assms(2) m1 same_client_urls(4) [OF f1] obtain j sj where
    g2: "get_json raise_for_status E s1 (accounts_url s) = (Inr j, sj)" and
    l: "load j sj = (accs, s2)"
    by (auto simp: get_accounts_def accounts_url_def elim: get_json_load_frame)
  from assms(4) m have "collect_all_with raise_for_status E s = (r, s')"
    by (simp add: collect_all_data_sync)
  from collect_all_with_prefix [OF this g1 g2 l assms(3)] show ?thesis .
qed

lemma collect_all_data_async_prefix:
  assumes "get_identity_async E s = (Inr ident, s1)"
    and "get_accounts_async E s1 = (Inr accs, s2)"
    and "py_iter s2 accs = Inr items" and "collect_all_data_async E s = (r, s')"
  shows "prefix (sent s') (sent s @ fixed_order E s (map (account_id s2) items))"
proof -
  have m: "use_async s"
    using assms(1) by (auto simp: get_identity_async_def split: if_splits)
  have g1: "get_json raise_for_status_async E s (identity_url s) = (Inr ident, s1)"
    using assms(1) m by (simp add: get_identity_async_def identity_url_def)
  note f1 = get_json_frame(1) [OF g1]
  have m1: "use_async s1"
    using f1 m by (simp add: same_client_def)
  from assms(2) m1 same_client_urls(4) [OF f1] obtain j sj where
    g2: "get_json raise_for_status_async E s1 (accounts_url s) = (Inr j, sj)" and
    l: "load j sj = (accs, s2)"
    by (auto simp: get_accounts_async_def accounts_url_def elim: get_json_load_frame)
  from assms(4) m have "collect_all_with raise_for_status_async E s = (r, s')"
    by (simp add: collect_all_data_async_eq)
  from collect_all_with_prefix [OF this g1 g2 l assms(3)] show ?thesis .
qed

lemma collect_all_data_success:
  assumes "collect_all_data E s = (Inr res, s')"
  shows "\<exists>items. py_iter s' (accounts res) = Inr items \<and>
           sent s' = sent s @ fixed_order E s (map (account_id s') items)"
proof -
  have "\<not> use_async s"
    using assms by (auto simp: collect_all_data_def split: if_splits)
  with assms have "collect_all_with raise_for_status E s = (Inr res, s')"
    by (simp add: collect_all_data_sync)
  then show ?thesis by (rule collect_all_with_success)
qed

lemma collect_all_data_async_success:
  assumes "collect_all_data_async E s = (Inr res, s')"
  shows "\<exists>items. py_iter s' (accounts res) = Inr items \<and>
           sent s' = sent s @ fixed_order E s (map (account_id s') items)"
proof -
  have "use_async s"
    using assms by (auto simp: collect_all_data_async_def split: if_splits)
  with assms have "collect_all_with raise_for_status_async E s = (Inr res, s')"
    by (simp add: collect_all_data_async_eq)
  then show ?thesis by (rule collect_all_with_success)
qed


lemmas async_run_defs =
  collect_all_data_async_def get_identity_async_def get_accounts_async_def
  get_balances_async_def get_transactions_async_def raise_for_status_async_def


section \<open>What the collector attaches\<close>

lemma get_json_value:
  assumes "stateless E" and "same_client s s'"
  shows "fst (get_json rfs E s' u) = fst (get_json rfs E s u)"
proof -
  have "reply E (sent s') (get_request E s u) = reply E (sent s) (get_request E s u)"
    using assms(1) by (simp add: stateless_def)
  with assms(2) get_request_same [OF assms(2)] show ?thesis
    by (simp add: get_json_eq same_client_def)
qed

lemma collect_with_values:
  assumes "stateless E" and "same_client s0 s" and "collect_with rfs E xs s = (Inr u, s')"
  shows "\<forall>x\<in>set xs. \<exists>a b t. x = Ref a \<and>
           map_of (heap s' a) ''balances'' = Some b \<and>
           map_of (heap s' a) ''transactions'' = Some t \<and>
           fst (get_json rfs E s0 (balance_url E s0 (account_id s' x))) = Inr b \<and>
           fst (get_json rfs E s0 (transaction_url E s0 (account_id s' x))) = Inr t"
  using assms(2,3)
proof (induction xs arbitrary: s)
  case Nil
  show ?case by simp
next
  case (Cons x xs)
  have "\<exists>a. x = Ref a"
  proof (rule ccontr)
    assume "\<not> ?thesis"
    then have "collect_with rfs E (x # xs) s = (Inl (AttributeError ''get''), s)"
      by (simp add: collect_with_not_Ref)
    with Cons.prems(2) show False by simp
  qed
  then obtain a where x: "x = Ref a" by blast
  let ?i = "account_id s (Ref a)"
  from Cons.prems(2) [unfolded x] show ?case
  proof (cases rule: collect_with_RefE)
    case (continue b s1 t s2)
    let ?s1 = "setitem s1 a ''balances'' b"
    let ?s3 = "setitem s2 a ''transactions'' t"
    note fb = get_json_frame [OF continue(1)]
    note ft = get_json_frame [OF continue(2)]
    have sc1: "same_client s0 ?s1"
      using same_client_trans [OF Cons.prems(1) fb(1)] by simp
    have sc3: "same_client s0 ?s3"
      using same_client_trans [OF sc1 ft(1)] by simp
    note ih = Cons.IH [OF sc3 continue(3)]
    have here: "\<exists>b t. map_of (heap s' a) ''balances'' = Some b \<and>
           map_of (heap s' a) ''transactions'' = Some t \<and>
           fst (get_json rfs E s0 (balance_url E s0 (account_id s' (Ref a)))) = Inr b \<and>
           fst (get_json rfs E s0 (transaction_url E s0 (account_id s' (Ref a)))) = Inr t"
    proof (cases "Ref a \<in> set xs")
      case True
      with ih show ?thesis by auto
    next
      case False
      with collect_with_frame [OF continue(3)] have "heap s' a = heap ?s3 a"
        by simp
      then have h: "heap s' a = dict_set (dict_set (heap s a) ''balances'' b) ''transactions'' t"
        using fb(2) ft(2) by simp
      have i: "account_id s' (Ref a) = ?i"
        by (rule collect_with_account_id [OF Cons.prems(2)])
      have "fst (get_json rfs E s0 (balance_url E s0 ?i)) =
            fst (get_json rfs E s (balance_url E s ?i))"
        using get_json_value [OF assms(1) Cons.prems(1), symmetric]
          same_client_urls(1) [OF Cons.prems(1)] by simp
      then have vb: "fst (get_json rfs E s0 (balance_url E s0 ?i)) = Inr b"
        using continue(1) by simp
      have "fst (get_json rfs E s0 (transaction_url E s0 ?i)) =
            fst (get_json rfs E ?s1 (transaction_url E s ?i))"
        using get_json_value [OF assms(1) sc1, symmetric]
          same_client_urls(2) [OF Cons.prems(1)] by simp
      then have vt: "fst (get_json rfs E s0 (transaction_url E s0 ?i)) = Inr t"
        using continue(2) by simp
      from h vb vt show ?thesis
        unfolding i by (simp add: map_of_dict_set)
    qed
    from here ih show ?thesis
      by (simp add: x)
  qed simp_all
qed

lemma collect_all_data_loop:
  assumes "collect_all_data E s = (Inr res, s')"
  obtains ident s1 s2 items u where
    "\<not> use_async s"
    "get_identity E s = (Inr ident, s1)"
    "get_accounts E s1 = (Inr (accounts res), s2)"
    "py_iter s2 (accounts res) = Inr items"
    "collect_with raise_for_status E items s2 = (Inr u, s')"
    "same_client s s2"
    "identity res = ident"
proof -
  have m: "\<not> use_async s"
    using assms by (auto simp: collect_all_data_def split: if_splits)
  from assms m obtain ident s1 accs s2 items u where
    i: "get_identity E s = (Inr ident, s1)" and
    a: "get_accounts E s1 = (Inr accs, s2)" and
    it: "py_iter s2 accs = Inr items" and
    loop: "collect_loop E items s2 = (Inr u, s')" and
    res: "res = \<lparr> identity = ident, accounts = accs \<rparr>"
    by (auto simp: collect_all_data_def split: prod.splits sum.splits)
  have "same_client s s1"
    using i m get_json_frame(1) [of raise_for_status E s "base_url s @ ''/stet/identity''"
        "Inr ident" s1]
    by (simp add: get_identity_def)
  then have sc: "same_client s s2"
    using get_accounts_frame(1) [OF a] by (rule same_client_trans)
  with m have "\<not> use_async s2"
    by (simp add: same_client_def)
  with loop have "collect_with raise_for_status E items s2 = (Inr u, s')"
    by (simp add: collect_loop_sync)
  with m i a it sc res that show ?thesis
    by simp
qed

lemma collect_with_all_refs:
  assumes "collect_with rfs E xs s = (Inr u, s')"
  shows "\<forall>x\<in>set xs. \<exists>a. x = Ref a"
  using assms
proof (induction xs arbitrary: s)
  case Nil
  show ?case by simp
next
  case (Cons x xs)
  have "\<exists>c. x = Ref c"
  proof (rule ccontr)
    assume "\<not> ?thesis"
    then have "collect_with rfs E (x # xs) s = (Inl (AttributeError ''get''), s)"
      by (simp add: collect_with_not_Ref)
    with Cons.prems show False by simp
  qed
  then obtain c where x: "x = Ref c" by blast
  from Cons.prems [unfolded x] show ?case
  proof (cases rule: collect_with_RefE)
    case (continue b s1 t s2)
    from Cons.IH [OF continue(3)] x show ?thesis by simp
  qed simp_all
qed

lemma collect_with_in_place:
  assumes "collect_with rfs E xs s = (Inr u, s')" and "Ref a \<in> set xs"
  shows "\<exists>b t. map_of (heap s' a) =
           (map_of (heap s a))(''balances'' \<mapsto> b, ''transactions'' \<mapsto> t)"
  using assms
proof (induction xs arbitrary: s)
  case Nil
  then show ?case by simp
next
  case (Cons x xs)
  have "\<exists>c. x = Ref c"
  proof (rule ccontr)
    assume "\<not> ?thesis"
    then have "collect_with rfs E (x # xs) s = (Inl (AttributeError ''get''), s)"
      by (simp add: collect_with_not_Ref)
    with Cons.prems(1) show False by simp
  qed
  then obtain c where x: "x = Ref c" by blast
  from Cons.prems(1) [unfolded x] show ?case
  proof (cases rule: collect_with_RefE)
    case (continue b s1 t s2)
    let ?s3 = "setitem s2 c ''transactions'' t"
    note fb = get_json_frame [OF continue(1)]
    note ft = get_json_frame [OF continue(2)]
    have h3: "heap ?s3 =
        (heap s)(c := dict_set (dict_set (heap s c) ''balances'' b) ''transactions'' t)"
      using fb(2) ft(2) by simp
    show ?thesis
    proof (cases "Ref a \<in> set xs")
      case True
      from Cons.IH [OF continue(3) True] obtain b' t' where
        "map_of (heap s' a) =
           (map_of (heap ?s3 a))(''balances'' \<mapsto> b', ''transactions'' \<mapsto> t')"
        by blast
      then have "map_of (heap s' a) =
           (map_of (heap s a))(''balances'' \<mapsto> b', ''transactions'' \<mapsto> t')"
        unfolding h3 by (cases "a = c") (simp_all add: map_of_dict_set)
      then show ?thesis by blast
    next
      case False
      with Cons.prems(2) have ac: "a = c"
        by (simp add: x)
      from False collect_with_frame [OF continue(3)] have "heap s' a = heap ?s3 a"
        by simp
      then have "map_of (heap s' a) =
           (map_of (heap s a))(''balances'' \<mapsto> b, ''transactions'' \<mapsto> t)"
        unfolding h3 by (simp add: ac map_of_dict_set)
      then show ?thesis by blast
    qed
  qed simp_all
qed


lemma stateless_stub: "stateless (stub_env tb accs bad)"
  by (simp add: stateless_def stub_env_def)


section \<open>Where the two keys are written\<close>

text \<open>
  Claim C4, as the code has it. \<open>collect_all_data\<close> makes no copy: the account list of
  the result is the very value \<open>get_accounts\<close> returned, and each record of that list
  is written to where it stands. After a successful run the record at an address of the
  list maps \<open>balances\<close> and \<open>transactions\<close> to the fetched values and every other key
  to what it held when \<open>get_accounts\<close> returned; records outside the list are not
  touched.
\<close>

theorem accounts_updated_in_place:
  assumes "get_identity E s = (Inr ident, s1)" and "get_accounts E s1 = (Inr accs, s2)"
    and "collect_all_data E s = (Inr res, s')"
  shows "accounts res = accs \<and>
         (\<exists>items. py_iter s2 accs = Inr items \<and>
            (\<forall>a. Ref a \<in> set items \<longrightarrow>
               (\<exists>b t. map_of (heap s' a) =
                  (map_of (heap s2 a))(''balances'' \<mapsto> b, ''transactions'' \<mapsto> t))) \<and>
            (\<forall>a. Ref a \<notin> set items \<longrightarrow> heap s' a = heap s2 a))"
proof -
  from assms(3) obtain ident' s1' s2' items u where
    "get_identity E s = (Inr ident', s1')"
    "get_accounts E s1' = (Inr (accounts res), s2')"
    "py_iter s2' (accounts res) = Inr items"
    "collect_with raise_for_status E items s2' = (Inr u, s')"
    by (rule collect_all_data_loop)
  with assms(1,2) have
    acc: "accounts res = accs" and
    it: "py_iter s2 accs = Inr items" and
    loop: "collect_with raise_for_status E items s2 = (Inr u, s')"
    by simp_all
  from collect_with_in_place [OF loop] collect_with_frame [OF loop] acc it
  show ?thesis by blast
qed

text \<open>
  Claim C4 as the specification words it does not hold. With two accounts, the record
  that \<open>get_accounts\<close> returned at address 0 holds the key \<open>id\<close> only; the result of
  \<open>collect_all_data\<close> refers to that same address, and the record there now has three
  keys.
\<close>

theorem accounts_updated_in_place_counterexample:
  "fst (get_accounts good_env (snd (get_identity good_env (demo_authed False)))) =
     Inr (PyList [Ref 0, Ref 1]) \<and>
   heap (snd (get_accounts good_env (snd (get_identity good_env (demo_authed False))))) 0 =
     [(''id'', JStr ''a1'')] \<and>
   fst (collect_all_data good_env (demo_authed False)) =
     Inr \<lparr> identity = JObj [(''id'', JStr ''u1'')], accounts = PyList [Ref 0, Ref 1] \<rparr> \<and>
   heap (snd (collect_all_data good_env (demo_authed False))) 0 =
     [(''id'', JStr ''a1''),
      (''balances'', JArr [JObj [(''amount'', JNum 100), (''currency'', JStr ''EUR'')]]),
      (''transactions'', JArr [])]"
  by (simp add: good_env_def two_accounts_def demo_defs run_defs)

theorem accounts_updated_in_place_witness:
  "accounts \<lparr> identity = JObj [(''id'', JStr ''u1'')], accounts = PyList [Ref 0, Ref 1] \<rparr> =
     PyList [Ref 0, Ref 1] \<and>
   fst (collect_all_data good_env (demo_authed False)) =
     Inr \<lparr> identity = JObj [(''id'', JStr ''u1'')], accounts = PyList [Ref 0, Ref 1] \<rparr> \<and>
   (\<exists>b t. map_of (heap (snd (collect_all_data good_env (demo_authed False))) 0) =
      [''id'' \<mapsto> JStr ''a1'', ''balances'' \<mapsto> b, ''transactions'' \<mapsto> t]) \<and>
   heap (snd (collect_all_data good_env (demo_authed False))) 2 = []"
proof -
  define s where "s = demo_authed False"
  define s1 where "s1 = snd (get_identity good_env s)"
  define s2 where "s2 = snd (get_accounts good_env s1)"
  define s' where "s' = snd (collect_all_data good_env s)"
  define res where "res = \<lparr> identity = JObj [(''id'', JStr ''u1'')],
    accounts = PyList [Ref 0, Ref 1] \<rparr>"
  note states = s'_def s2_def s1_def s_def
  have i: "get_identity good_env s = (Inr (JObj [(''id'', JStr ''u1'')]), s1)"
    by (simp add: states prod_eq_iff good_env_def two_accounts_def demo_defs run_defs)
  have a: "get_accounts good_env s1 = (Inr (PyList [Ref 0, Ref 1]), s2)"
    by (simp add: states prod_eq_iff good_env_def two_accounts_def demo_defs run_defs)
  have run: "collect_all_data good_env s = (Inr res, s')"
    by (simp add: states res_def prod_eq_iff good_env_def two_accounts_def
        demo_defs run_defs)
  have h1: "heap s2 0 = [(''id'', JStr ''a1'')]" and h2: "heap s2 2 = []"
    by (simp_all add: states good_env_def two_accounts_def demo_defs run_defs)
  from accounts_updated_in_place [OF i a run]
  have "(\<exists>b t. map_of (heap s' 0) =
           (map_of (heap s2 0))(''balances'' \<mapsto> b, ''transactions'' \<mapsto> t)) \<and>
        heap s' 2 = heap s2 2"
    by auto
  then have "(\<exists>b t. map_of (heap s' 0) =
      [''id'' \<mapsto> JStr ''a1'', ''balances'' \<mapsto> b, ''transactions'' \<mapsto> t]) \<and>
      heap s' 2 = []"
    by (simp add: h1 h2)
  with run have "accounts res = PyList [Ref 0, Ref 1] \<and>
      fst (collect_all_data good_env s) = Inr res \<and>
      (\<exists>b t. map_of (heap s' 0) =
        [''id'' \<mapsto> JStr ''a1'', ''balances'' \<mapsto> b, ''transactions'' \<mapsto> t]) \<and>
      heap s' 2 = []"
    by (simp add: res_def)
  then show ?thesis
    unfolding s'_def s_def res_def .
qed

section \<open>Authentication\<close>

lemma request_token_eq:
  "session s \<Longrightarrow>
   request_token rfs E s =
     (case reply E (sent s) (token_request s) of
        Inl e \<Rightarrow> (Inl e, s\<lparr>sent := sent s @ [token_request s]\<rparr>)
      | Inr resp \<Rightarrow>
          (case rfs resp of
             Inl e \<Rightarrow> (Inl e, s\<lparr>sent := sent s @ [token_request s]\<rparr>)
           | Inr _ \<Rightarrow>
               (case json_body resp of
                  Inl e \<Rightarrow> (Inl e, s\<lparr>sent := sent s @ [token_request s]\<rparr>)
                | Inr (JObj d) \<Rightarrow>
                    (Inr (dict_get d ''access_token'' JNull),
                     s\<lparr>sent := sent s @ [token_request s],
                       token := dict_get d ''access_token'' JNull,
                       token_type := dict_get d ''token_type'' (JStr ''bearer'')\<rparr>)
                | Inr _ \<Rightarrow> (Inl (AttributeError ''get''), s\<lparr>sent := sent s @ [token_request s]\<rparr>))))"
  by (simp add: request_token_def send_def split: sum.splits json.splits)

lemma request_token_success:
  assumes "request_token rfs E s = (Inr tok, s')"
  obtains resp d where
    "session s"
    "reply E (sent s) (token_request s) = Inr resp"
    "rfs resp = Inr ()"
    "json_body resp = Inr (JObj d)"
    "tok = dict_get d ''access_token'' JNull"
    "s' = s\<lparr>sent := sent s @ [token_request s],
             token := dict_get d ''access_token'' JNull,
             token_type := dict_get d ''token_type'' (JStr ''bearer'')\<rparr>"
proof -
  have s: "session s"
    using assms by (auto simp: request_token_def split: if_splits)
  from assms [unfolded request_token_eq [OF s]] s that show ?thesis
    by (auto split: sum.splits json.splits)
qed

lemma request_token_failure:
  assumes "request_token rfs E s = (Inl e, s')"
  shows "token s' = token s" and "token_type s' = token_type s"
proof -
  have "token s' = token s \<and> token_type s' = token_type s"
  proof (cases "session s")
    case False
    with assms show ?thesis by (simp add: request_token_def)
  next
    case True
    from assms [unfolded request_token_eq [OF True]] show ?thesis
      by (auto split: sum.splits json.splits)
  qed
  then show "token s' = token s" and "token_type s' = token_type s"
    by simp_all
qed

text \<open>
  Claim C5, as the code has it. On a blocking client with a session, \<open>authenticate\<close>
  fails with the status error when the token endpoint answers 400 to 599, with the
  decoder's error when the body is not JSON, and with \<open>AttributeError\<close> when the body
  is JSON but not an object. For any JSON object that passes the status check it
  succeeds: it returns what \<open>data.get("access_token")\<close> gives, which is \<open>None\<close> when the
  key is absent. A failing \<open>authenticate\<close> leaves the stored token as it was.
\<close>

theorem authenticate_failures:
  assumes "\<not> use_async s" and "session s"
    and "reply E (sent s) (token_request s) = Inr resp"
  shows
    "(400 \<le> status_code resp \<and> status_code resp < 600 \<longrightarrow>
        fst (authenticate E s) = Inl (HTTPError (status_code resp))) \<and>
     (\<not> (400 \<le> status_code resp \<and> status_code resp < 600) \<and> json_body resp = Inl e \<longrightarrow>
        fst (authenticate E s) = Inl e) \<and>
     (\<not> (400 \<le> status_code resp \<and> status_code resp < 600) \<and> json_body resp = Inr j \<and>
      (\<forall>d. j \<noteq> JObj d) \<longrightarrow>
        fst (authenticate E s) = Inl (AttributeError ''get'')) \<and>
     (\<not> (400 \<le> status_code resp \<and> status_code resp < 600) \<and>
      json_body resp = Inr (JObj d) \<longrightarrow>
        fst (authenticate E s) = Inr (dict_get d ''access_token'' JNull) \<and>
        token (snd (authenticate E s)) = dict_get d ''access_token'' JNull) \<and>
     (\<forall>x. fst (authenticate E s) = Inl x \<longrightarrow> token (snd (authenticate E s)) = token s)"
proof -
  have fail: "token (snd (authenticate E s)) = token s" if "fst (authenticate E s) = Inl x" for x
    using request_token_failure(1) [of raise_for_status E s x "snd (authenticate E s)"] that
      assms(1)
    by (simp add: authenticate_def prod_eq_iff)
  have "j = JNull \<or> (\<exists>b. j = JBool b) \<or> (\<exists>n. j = JNum n) \<or> (\<exists>x. j = JStr x) \<or>
      (\<exists>xs. j = JArr xs)" if "\<forall>d. j \<noteq> JObj d"
    using that by (cases j) auto
  with assms fail show ?thesis
    by (auto simp: authenticate_def request_token_eq raise_for_status_def)
qed

lemmas client_defs = demo_client_def init_def enter_def aenter_def rstrip_slash_def

theorem authenticate_failures_witness:
  "fst (authenticate (status_env 401 (Inr token_body)) (demo_client False)) =
     Inl (HTTPError 401) \<and>
   fst (authenticate (status_env 200 (Inl (DecodeError ''body''))) (demo_client False)) =
     Inl (DecodeError ''body'') \<and>
   fst (authenticate (status_env 200 (Inr (JArr []))) (demo_client False)) =
     Inl (AttributeError ''get'') \<and>
   fst (authenticate (status_env 200 (Inr token_body)) (demo_client False)) =
     Inr (JStr ''tok'') \<and>
   token (snd (authenticate (status_env 401 (Inr token_body)) (demo_client False))) = JNull"
proof -
  have m: "\<not> use_async (demo_client False)" and s: "session (demo_client False)"
    and t: "token (demo_client False) = JNull"
    by (simp_all add: client_defs)
  have r: "reply (status_env n b) (sent (demo_client False))
      (token_request (demo_client False)) = Inr \<lparr> status_code = n, json_body = b \<rparr>" for n b
    by (simp add: status_env_def)
  from authenticate_failures [OF m s r, of 401 "Inr token_body"]
    authenticate_failures [OF m s r, of 200 "Inl (DecodeError ''body'')" "DecodeError ''body''"]
    authenticate_failures [OF m s r, of 200 "Inr (JArr [])" _ "JArr []"]
    authenticate_failures [OF m s r, of 200 "Inr token_body" _ _
      "[(''access_token'', JStr ''tok''), (''token_type'', JStr ''bearer'')]"]
    t
  show ?thesis
    by (simp add: token_body_def dict_get_def)
qed

text \<open>
  Claim C5 as the specification words it does not hold. A response with status 200
  whose body is the empty object makes \<open>authenticate\<close> return \<open>None\<close> normally, with
  \<open>None\<close> stored as the token; and a response with status 300 is not rejected by
  \<open>raise_for_status\<close>, so \<open>authenticate\<close> succeeds on it.
\<close>

theorem authenticate_failures_counterexample:
  "fst (authenticate (status_env 200 (Inr (JObj []))) (demo_client False)) = Inr JNull \<and>
   token (snd (authenticate (status_env 200 (Inr (JObj []))) (demo_client False))) = JNull \<and>
   fst (authenticate (status_env 300 (Inr token_body)) (demo_client False)) =
     Inr (JStr ''tok'')"
  by (simp add: authenticate_def request_token_def send_def raise_for_status_def
      status_env_def client_defs token_body_def dict_get_def)

section \<open>Fetching without a token\<close>

lemma token_before_authenticate:
  "token (init b u p a) = JNull"
  "token (enter s) = token s"
  "token (aenter s) = token s"
  "fst (authenticate E s) = Inl e \<Longrightarrow> token (snd (authenticate E s)) = token s"
  "fst (authenticate_async E s) = Inl e \<Longrightarrow> token (snd (authenticate_async E s)) = token s"
proof -
  show "fst (authenticate E s) = Inl e \<Longrightarrow> token (snd (authenticate E s)) = token s"
    using request_token_failure(1) [of raise_for_status E s e "snd (authenticate E s)"]
    by (cases "use_async s") (simp_all add: authenticate_def prod_eq_iff)
  show "fst (authenticate_async E s) = Inl e \<Longrightarrow>
      token (snd (authenticate_async E s)) = token s"
    using request_token_failure(1) [of raise_for_status_async E s e
        "snd (authenticate_async E s)"]
    by (cases "use_async s") (simp_all add: authenticate_async_def prod_eq_iff)
qed (simp_all add: init_def enter_def aenter_def)

lemma get_json_no_token:
  "token s = JNull \<Longrightarrow> session s \<Longrightarrow> get_json rfs E s u = (Inl not_authenticated, s)"
  "token s = JNull \<Longrightarrow> sent (snd (get_json rfs E s u)) = sent s"
  by (simp_all add: get_json_eq)

text \<open>
  Claim C6, as the code has it. While the token is \<open>None\<close>, as it is from construction
  until an \<open>authenticate\<close> succeeds, each of the five fetches called in the instance's
  own mode on a client that holds a session raises the not-authenticated \<open>ValueError\<close>
  and leaves the state as it was; and no fetch, in whatever mode and with or without a
  session, issues a request.
\<close>

theorem unauthenticated_fetch:
  assumes "token s = JNull"
  shows
    "(\<not> use_async s \<and> session s \<longrightarrow>
        get_identity E s = (Inl not_authenticated, s) \<and>
        get_accounts E s = (Inl not_authenticated, s) \<and>
        get_account E s i = (Inl not_authenticated, s) \<and>
        get_balances E s i = (Inl not_authenticated, s) \<and>
        get_transactions E s i = (Inl not_authenticated, s)) \<and>
     (use_async s \<and> session s \<longrightarrow>
        get_identity_async E s = (Inl not_authenticated, s) \<and>
        get_accounts_async E s = (Inl not_authenticated, s) \<and>
        get_account_async E s i = (Inl not_authenticated, s) \<and>
        get_balances_async E s i = (Inl not_authenticated, s) \<and>
        get_transactions_async E s i = (Inl not_authenticated, s)) \<and>
     sent (snd (get_identity E s)) = sent s \<and>
     sent (snd (get_accounts E s)) = sent s \<and>
     sent (snd (get_account E s i)) = sent s \<and>
     sent (snd (get_balances E s i)) = sent s \<and>
     sent (snd (get_transactions E s i)) = sent s \<and>
     sent (snd (get_identity_async E s)) = sent s \<and>
     sent (snd (get_accounts_async E s)) = sent s \<and>
     sent (snd (get_account_async E s i)) = sent s \<and>
     sent (snd (get_balances_async E s i)) = sent s \<and>
     sent (snd (get_transactions_async E s i)) = sent s"
proof -
  have acc: "sent (snd (get_accounts E s)) = sent s"
    "sent (snd (get_accounts_async E s)) = sent s"
    using assms by (auto simp: get_accounts_def get_accounts_async_def get_json_eq)
  have own: "\<not> use_async s \<and> session s \<longrightarrow>
        get_identity E s = (Inl not_authenticated, s) \<and>
        get_accounts E s = (Inl not_authenticated, s) \<and>
        get_account E s i = (Inl not_authenticated, s) \<and>
        get_balances E s i = (Inl not_authenticated, s) \<and>
        get_transactions E s i = (Inl not_authenticated, s)"
    using assms
    by (simp add: get_identity_def get_accounts_def get_account_def get_balances_def
        get_transactions_def get_json_no_token)
  have own_async: "use_async s \<and> session s \<longrightarrow>
        get_identity_async E s = (Inl not_authenticated, s) \<and>
        get_accounts_async E s = (Inl not_authenticated, s) \<and>
        get_account_async E s i = (Inl not_authenticated, s) \<and>
        get_balances_async E s i = (Inl not_authenticated, s) \<and>
        get_transactions_async E s i = (Inl not_authenticated, s)"
    using assms
    by (simp add: get_identity_async_def get_accounts_async_def get_account_async_def
        get_balances_async_def get_transactions_async_def get_json_no_token)
  have rest: "sent (snd (get_identity E s)) = sent s"
     "sent (snd (get_account E s i)) = sent s"
     "sent (snd (get_balances E s i)) = sent s"
     "sent (snd (get_transactions E s i)) = sent s"
     "sent (snd (get_identity_async E s)) = sent s"
     "sent (snd (get_account_async E s i)) = sent s"
     "sent (snd (get_balances_async E s i)) = sent s"
     "sent (snd (get_transactions_async E s i)) = sent s"
    using assms
    by (simp_all add: get_identity_def get_account_def get_balances_def
        get_transactions_def get_identity_async_def get_account_async_def
        get_balances_async_def get_transactions_async_def get_json_no_token)
  from own own_async acc rest show ?thesis
    by (intro conjI)
qed

theorem unauthenticated_fetch_witness:
  "token (demo_client False) = JNull \<and>
   fst (get_identity good_env (demo_client False)) =
     Inl (ValueError ''Not authenticated. Call authenticate() first'') \<and>
   sent (snd (get_balances good_env (demo_client False) (JStr ''a1''))) = [] \<and>
   fst (get_transactions_async good_env (demo_client True) (JStr ''a1'')) =
     Inl (ValueError ''Not authenticated. Call authenticate() first'')"
proof -
  have f: "token (demo_client False) = JNull" "\<not> use_async (demo_client False)"
    "session (demo_client False)" "sent (demo_client False) = []"
    and t: "token (demo_client True) = JNull" "use_async (demo_client True)"
    "session (demo_client True)"
    by (simp_all add: client_defs)
  from unauthenticated_fetch [OF f(1), of good_env "JStr ''a1''"]
    unauthenticated_fetch [OF t(1), of good_env "JStr ''a1''"] f t
  show ?thesis
    by (simp add: not_authenticated_def)
qed

text \<open>
  Claim C6 as the specification words it does not hold. A blocking fetch on a
  suspending instance raises the mode-mismatch \<open>RuntimeError\<close> before the token is
  looked at; and on a client that was never entered, so that \<open>self.session\<close> is
  \<open>None\<close>, the lookup of \<open>self.session.get\<close> raises \<open>AttributeError\<close> before
  \<open>_get_headers\<close> is called.
\<close>

theorem unauthenticated_fetch_counterexample:
  "token (demo_client True) = JNull \<and>
   fst (get_identity good_env (demo_client True)) =
     Inl (RuntimeError ''Use get_identity_async for async mode'') \<and>
   token (init ''https://bank.example/'' ''mdupuis'' ''111111'' False) = JNull \<and>
   fst (get_identity good_env (init ''https://bank.example/'' ''mdupuis'' ''111111'' False)) =
     Inl (AttributeError ''get'')"
  by (simp add: client_defs get_identity_def get_json_def)

lemma fetches_no_token:
  assumes "token s = JNull" and "\<not> use_async s" and "session s"
  shows "get_identity E s = (Inl not_authenticated, s)"
    and "get_accounts E s = (Inl not_authenticated, s)"
    and "get_account E s i = (Inl not_authenticated, s)"
    and "get_balances E s i = (Inl not_authenticated, s)"
    and "get_transactions E s i = (Inl not_authenticated, s)"
    and "collect_all_data E s = (Inl not_authenticated, s)"
  using assms
  by (simp_all add: collect_all_data_def get_identity_def get_accounts_def get_account_def
      get_balances_def get_transactions_def get_json_no_token)

text \<open>
  Claim C9. When the token endpoint answers a blocking \<open>authenticate\<close> with a 2xx
  status and a JSON object without \<open>access_token\<close>, \<open>authenticate\<close> returns \<open>None\<close> and
  the stored token is \<open>None\<close>. Each of the five fetches, and \<open>collect_all_data\<close>, then
  raises the not-authenticated \<open>ValueError\<close> without touching the state, which is also
  what it does on a client whose \<open>authenticate\<close> was never called.
\<close>

theorem authenticate_without_token:
  assumes "\<not> use_async s" and "session s"
    and "reply E (sent s) (token_request s) = Inr resp"
    and "200 \<le> status_code resp" and "status_code resp < 300"
    and "json_body resp = Inr (JObj d)" and "map_of d ''access_token'' = None"
    and "authenticate E s = (r, s')"
  shows
    "r = Inr JNull \<and> token s' = JNull \<and>
     get_identity E s' = (Inl not_authenticated, s') \<and>
     get_accounts E s' = (Inl not_authenticated, s') \<and>
     get_account E s' i = (Inl not_authenticated, s') \<and>
     get_balances E s' i = (Inl not_authenticated, s') \<and>
     get_transactions E s' i = (Inl not_authenticated, s') \<and>
     collect_all_data E s' = (Inl not_authenticated, s') \<and>
     (token s = JNull \<longrightarrow>
        fst (get_identity E s') = fst (get_identity E s) \<and>
        fst (get_accounts E s') = fst (get_accounts E s) \<and>
        fst (get_account E s' i) = fst (get_account E s i) \<and>
        fst (get_balances E s' i) = fst (get_balances E s i) \<and>
        fst (get_transactions E s' i) = fst (get_transactions E s i) \<and>
        fst (collect_all_data E s') = fst (collect_all_data E s))"
proof -
  have r: "r = Inr JNull"
    and s': "s' = s\<lparr>sent := sent s @ [token_request s], token := JNull,
               token_type := dict_get d ''token_type'' (JStr ''bearer'')\<rparr>"
    using assms
    by (simp_all add: authenticate_def request_token_eq raise_for_status_def dict_get_def)
  have t: "token s' = JNull" and m: "\<not> use_async s'" and ss: "session s'"
    using assms(1,2) by (simp_all add: s')
  note after = fetches_no_token [OF t m ss]
  have before: "fst (get_identity E s) = Inl not_authenticated \<and>
      fst (get_accounts E s) = Inl not_authenticated \<and>
      fst (get_account E s i) = Inl not_authenticated \<and>
      fst (get_balances E s i) = Inl not_authenticated \<and>
      fst (get_transactions E s i) = Inl not_authenticated \<and>
      fst (collect_all_data E s) = Inl not_authenticated" if "token s = JNull"
    by (simp add: fetches_no_token [OF that assms(1,2)])
  from r t after m ss before show ?thesis
    by simp
qed

theorem authenticate_without_token_witness:
  "fst (authenticate (status_env 200 (Inr (JObj [(''token_type'', JStr ''bearer'')])))
         (demo_client False)) = Inr JNull \<and>
   fst (get_identity (status_env 200 (Inr (JObj [(''token_type'', JStr ''bearer'')])))
         (snd (authenticate (status_env 200 (Inr (JObj [(''token_type'', JStr ''bearer'')])))
            (demo_client False)))) =
     Inl (ValueError ''Not authenticated. Call authenticate() first'') \<and>
   fst (collect_all_data (status_env 200 (Inr (JObj [(''token_type'', JStr ''bearer'')])))
         (snd (authenticate (status_env 200 (Inr (JObj [(''token_type'', JStr ''bearer'')])))
            (demo_client False)))) =
     fst (collect_all_data (status_env 200 (Inr (JObj [(''token_type'', JStr ''bearer'')])))
         (demo_client False))"
proof -
  define E where "E = status_env 200 (Inr (JObj [(''token_type'', JStr ''bearer'')]))"
  define s where "s = demo_client False"
  define r where "r = fst (authenticate E s)"
  define s' where "s' = snd (authenticate E s)"
  have f: "\<not> use_async s" "session s" "token s = JNull"
    by (simp_all add: s_def client_defs)
  have rp: "reply E (sent s) (token_request s) =
      Inr \<lparr> status_code = 200, json_body = Inr (JObj [(''token_type'', JStr ''bearer'')]) \<rparr>"
    by (simp add: E_def status_env_def)
  have run: "authenticate E s = (r, s')"
    by (simp add: r_def s'_def)
  have c: "200 \<le> status_code \<lparr> status_code = 200,
        json_body = Inr (JObj [(''token_type'', JStr ''bearer'')]) \<rparr>"
    "status_code \<lparr> status_code = 200,
        json_body = Inr (JObj [(''token_type'', JStr ''bearer'')]) \<rparr> < 300"
    "json_body \<lparr> status_code = 200,
        json_body = Inr (JObj [(''token_type'', JStr ''bearer'')]) \<rparr> =
       Inr (JObj [(''token_type'', JStr ''bearer'')])"
    "map_of [(''token_type'', JStr ''bearer'')] ''access_token'' = None"
    by simp_all
  from authenticate_without_token [OF f(1,2) rp c run, of "JStr ''a1''"] f(3)
  have "r = Inr JNull \<and> fst (get_identity E s') = Inl not_authenticated \<and>
      fst (collect_all_data E s') = fst (collect_all_data E s)"
    by (metis fst_conv)
  then show ?thesis
    unfolding r_def s'_def s_def E_def not_authenticated_def .
qed

section \<open>The stored session\<close>

lemma request_token_stored:
  assumes "request_token rfs E s = (Inr tok, s')"
  shows "token_stored E s tok s'" and "session s'" and "use_async s' = use_async s"
proof -
  from assms obtain resp d where
    "session s" "reply E (sent s) (token_request s) = Inr resp"
    "json_body resp = Inr (JObj d)" "tok = dict_get d ''access_token'' JNull"
    "s' = s\<lparr>sent := sent s @ [token_request s],
             token := dict_get d ''access_token'' JNull,
             token_type := dict_get d ''token_type'' (JStr ''bearer'')\<rparr>"
    by (rule request_token_success)
  then show "token_stored E s tok s'" and "session s'" and "use_async s' = use_async s"
    by (auto simp: token_stored_def dict_get_def)
qed

lemma get_json_sends:
  assumes "session c" and "py_truthy (token c)" and "same_client s c"
  shows "sent (snd (get_json rfs E c u)) = sent c @ [get_request E s u]"
  using assms get_request_same [OF assms(3)] by (simp add: get_json_eq)

lemma load_sent: "sent (snd (load j s)) = sent s"
  using load_frame(1) [of j s "fst (load j s)" "snd (load j s)"] by simp

lemma get_accounts_sends:
  assumes "session c" and "py_truthy (token c)" and "same_client s c"
  shows "\<not> use_async c \<Longrightarrow>
           sent (snd (get_accounts E c)) = sent c @ [get_request E s (accounts_url s)]"
    and "use_async c \<Longrightarrow>
           sent (snd (get_accounts_async E c)) = sent c @ [get_request E s (accounts_url s)]"
proof -
  have u: "base_url c @ ''/stet/account'' = accounts_url s"
    using assms(3) by (simp add: accounts_url_def same_client_def)
  show "sent (snd (get_accounts E c)) = sent c @ [get_request E s (accounts_url s)]"
    if "\<not> use_async c"
    using that get_json_sends [OF assms, of raise_for_status E "accounts_url s"]
    by (auto simp: get_accounts_def u split: prod.splits sum.splits
        dest: load_frame(1))
  show "sent (snd (get_accounts_async E c)) = sent c @ [get_request E s (accounts_url s)]"
    if "use_async c"
    using that get_json_sends [OF assms, of raise_for_status_async E "accounts_url s"]
    by (auto simp: get_accounts_async_def u split: prod.splits sum.splits
        dest: load_frame(1))
qed

text \<open>
  Claim C7. When \<open>authenticate\<close> (or \<open>authenticate_async\<close>) succeeds, the response was a
  JSON object; the stored token is what \<open>data.get("access_token")\<close> gives and is the
  value returned, so it is the field itself when the field is present; the stored
  token type is the \<open>token_type\<close> field when present and \<open>"bearer"\<close> when absent
  (\<open>token_stored\<close>). Every later fetch on this client that sends a request, which it
  does when the stored token is truthy, sends the request \<open>get_request\<close>, whose headers
  are \<open>Authorization: "{token_type} {token}"\<close> and \<open>Content-Type: application/json\<close>.
\<close>

theorem authenticate_stores_token:
  "(authenticate E s = (Inr tok, s') \<longrightarrow>
      token_stored E s tok s' \<and>
      (py_truthy (token s') \<longrightarrow>
         get_headers E s' =
           Inr [(''Authorization'', py_str E (token_type s') @ '' '' @ py_str E (token s')),
                (''Content-Type'', ''application/json'')] \<and>
         (\<forall>c. same_client s' c \<longrightarrow>
            sent (snd (get_identity E c)) = sent c @ [get_request E s' (identity_url s')] \<and>
            sent (snd (get_accounts E c)) = sent c @ [get_request E s' (accounts_url s')] \<and>
            sent (snd (get_account E c i)) = sent c @ [get_request E s' (account_url E s' i)] \<and>
            sent (snd (get_balances E c i)) = sent c @ [get_request E s' (balance_url E s' i)] \<and>
            sent (snd (get_transactions E c i)) =
              sent c @ [get_request E s' (transaction_url E s' i)]))) \<and>
   (authenticate_async E s = (Inr tok, s') \<longrightarrow>
      token_stored E s tok s' \<and>
      (py_truthy (token s') \<longrightarrow>
         get_headers E s' =
           Inr [(''Authorization'', py_str E (token_type s') @ '' '' @ py_str E (token s')),
                (''Content-Type'', ''application/json'')] \<and>
         (\<forall>c. same_client s' c \<longrightarrow>
            sent (snd (get_identity_async E c)) =
              sent c @ [get_request E s' (identity_url s')] \<and>
            sent (snd (get_accounts_async E c)) =
              sent c @ [get_request E s' (accounts_url s')] \<and>
            sent (snd (get_account_async E c i)) =
              sent c @ [get_request E s' (account_url E s' i)] \<and>
            sent (snd (get_balances_async E c i)) =
              sent c @ [get_request E s' (balance_url E s' i)] \<and>
            sent (snd (get_transactions_async E c i)) =
              sent c @ [get_request E s' (transaction_url E s' i)]))) \<and>
   headers (get_request E s' u) =
     [(''Authorization'', py_str E (token_type s') @ '' '' @ py_str E (token s')),
      (''Content-Type'', ''application/json'')]"
proof -
  have hs: "get_headers E s' =
           Inr [(''Authorization'', py_str E (token_type s') @ '' '' @ py_str E (token s')),
                (''Content-Type'', ''application/json'')]" if "py_truthy (token s')"
    using that by (simp add: get_headers_def)
  have sync: "sent (snd (get_identity E c)) = sent c @ [get_request E s' (identity_url s')] \<and>
      sent (snd (get_accounts E c)) = sent c @ [get_request E s' (accounts_url s')] \<and>
      sent (snd (get_account E c i)) = sent c @ [get_request E s' (account_url E s' i)] \<and>
      sent (snd (get_balances E c i)) = sent c @ [get_request E s' (balance_url E s' i)] \<and>
      sent (snd (get_transactions E c i)) =
        sent c @ [get_request E s' (transaction_url E s' i)]"
    if run: "authenticate E s = (Inr tok, s')" and t: "py_truthy (token s')"
      and c: "same_client s' c" for c
  proof -
    have m: "\<not> use_async s"
      using run by (auto simp: authenticate_def split: if_splits)
    with run have "request_token raise_for_status E s = (Inr tok, s')"
      by (simp add: authenticate_def)
    from request_token_stored(2,3) [OF this] m have "session s'" "\<not> use_async s'"
      by simp_all
    with c t have f: "session c" "py_truthy (token c)" "\<not> use_async c"
      and b: "base_url c = base_url s'"
      by (simp_all add: same_client_def)
    from f(3) b get_json_sends [OF f(1,2) c, of raise_for_status E]
      get_accounts_sends(1) [OF f(1,2) c f(3), of E]
    show ?thesis
      by (simp add: get_identity_def get_account_def get_balances_def get_transactions_def
          identity_url_def account_url_def balance_url_def transaction_url_def)
  qed
  have async: "sent (snd (get_identity_async E c)) =
        sent c @ [get_request E s' (identity_url s')] \<and>
      sent (snd (get_accounts_async E c)) = sent c @ [get_request E s' (accounts_url s')] \<and>
      sent (snd (get_account_async E c i)) =
        sent c @ [get_request E s' (account_url E s' i)] \<and>
      sent (snd (get_balances_async E c i)) =
        sent c @ [get_request E s' (balance_url E s' i)] \<and>
      sent (snd (get_transactions_async E c i)) =
        sent c @ [get_request E s' (transaction_url E s' i)]"
    if run: "authenticate_async E s = (Inr tok, s')" and t: "py_truthy (token s')"
      and c: "same_client s' c" for c
  proof -
    have m: "use_async s"
      using run by (auto simp: authenticate_async_def split: if_splits)
    with run have "request_token raise_for_status_async E s = (Inr tok, s')"
      by (simp add: authenticate_async_def)
    from request_token_stored(2,3) [OF this] m have "session s'" "use_async s'"
      by simp_all
    with c t have f: "session c" "py_truthy (token c)" "use_async c"
      and b: "base_url c = base_url s'"
      by (simp_all add: same_client_def)
    from f(3) b get_json_sends [OF f(1,2) c, of raise_for_status_async E]
      get_accounts_sends(2) [OF f(1,2) c f(3), of E]
    show ?thesis
      by (simp add: get_identity_async_def get_account_async_def get_balances_async_def
          get_transactions_async_def identity_url_def account_url_def balance_url_def
          transaction_url_def)
  qed
  have st: "token_stored E s tok s'" if "authenticate E s = (Inr tok, s')"
    using that request_token_stored(1) [of raise_for_status E s tok s']
    by (auto simp: authenticate_def split: if_splits)
  have st_async: "token_stored E s tok s'" if "authenticate_async E s = (Inr tok, s')"
    using that request_token_stored(1) [of raise_for_status_async E s tok s']
    by (auto simp: authenticate_async_def split: if_splits)
  have h: "headers (get_request E s' u) =
     [(''Authorization'', py_str E (token_type s') @ '' '' @ py_str E (token s')),
      (''Content-Type'', ''application/json'')]"
    by (simp add: get_request_def)
  from hs sync async st st_async h show ?thesis
    by blast
qed

theorem authenticate_stores_token_witness:
  "fst (authenticate (status_env 200 (Inr (JObj [(''access_token'', JStr ''tok'')])))
         (demo_client False)) = Inr (JStr ''tok'') \<and>
   token (snd (authenticate (status_env 200 (Inr (JObj [(''access_token'', JStr ''tok'')])))
         (demo_client False))) = JStr ''tok'' \<and>
   token_type (snd (authenticate (status_env 200 (Inr (JObj [(''access_token'', JStr ''tok'')])))
         (demo_client False))) = JStr ''bearer'' \<and>
   headers (get_request (status_env 200 (Inr (JObj [(''access_token'', JStr ''tok'')])))
      (snd (authenticate (status_env 200 (Inr (JObj [(''access_token'', JStr ''tok'')])))
         (demo_client False))) ''https://bank.example/stet/identity'') =
     [(''Authorization'', ''bearer tok''), (''Content-Type'', ''application/json'')] \<and>
   token_type (snd (authenticate_async
      (status_env 200 (Inr (JObj [(''access_token'', JStr ''tok''),
                                   (''token_type'', JStr ''Bearer'')])))
      (demo_client True))) = JStr ''Bearer''"
proof -
  define E where "E = status_env 200 (Inr (JObj [(''access_token'', JStr ''tok'')]))"
  define s where "s = demo_client False"
  define s' where "s' = snd (authenticate E s)"
  define E2 where "E2 = status_env 200 (Inr (JObj [(''access_token'', JStr ''tok''),
                                   (''token_type'', JStr ''Bearer'')]))"
  define a where "a = demo_client True"
  define a' where "a' = snd (authenticate_async E2 a)"
  have run: "authenticate E s = (Inr (JStr ''tok''), s')"
    by (simp add: s'_def s_def E_def prod_eq_iff authenticate_def request_token_def send_def
        raise_for_status_def status_env_def client_defs dict_get_def)
  have run2: "authenticate_async E2 a = (Inr (JStr ''tok''), a')"
    by (simp add: a'_def a_def E2_def prod_eq_iff authenticate_async_def request_token_def
        send_def raise_for_status_async_def status_env_def client_defs dict_get_def)
  have rp: "reply E h rq =
      Inr \<lparr> status_code = 200, json_body = Inr (JObj [(''access_token'', JStr ''tok'')]) \<rparr>"
    for h rq
    by (simp add: E_def status_env_def)
  have rp2: "reply E2 h rq =
      Inr \<lparr> status_code = 200, json_body = Inr (JObj [(''access_token'', JStr ''tok''),
                                   (''token_type'', JStr ''Bearer'')]) \<rparr>"
    for h rq
    by (simp add: E2_def status_env_def)
  note th = authenticate_stores_token [of E s "JStr ''tok''" s' JNull
      "''https://bank.example/stet/identity''"]
  have st: "token_stored E s (JStr ''tok'') s'"
    by (rule conjunct1 [OF mp [OF conjunct1 [OF th] run]])
  have h: "headers (get_request E s' ''https://bank.example/stet/identity'') =
     [(''Authorization'', py_str E (token_type s') @ '' '' @ py_str E (token s')),
      (''Content-Type'', ''application/json'')]"
    by (rule conjunct2 [OF conjunct2 [OF th]])
  from st obtain resp d where
    "reply E (sent s) (token_request s) = Inr resp" and
    "json_body resp = Inr (JObj d)" and
    r: "token s' = dict_get d ''access_token'' JNull"
      "token_type s' = dict_get d ''token_type'' (JStr ''bearer'')"
    unfolding token_stored_def by blast
  then have "d = [(''access_token'', JStr ''tok'')]"
    unfolding rp by force
  with r have t: "token s' = JStr ''tok''" and tt: "token_type s' = JStr ''bearer''"
    by (simp_all add: dict_get_def)
  note th2 = authenticate_stores_token [of E2 a "JStr ''tok''" a' JNull "[]"]
  have "token_stored E2 a (JStr ''tok'') a'"
    by (rule conjunct1 [OF mp [OF conjunct1 [OF conjunct2 [OF th2]] run2]])
  then obtain resp2 d2 where
    "reply E2 (sent a) (token_request a) = Inr resp2" and
    "json_body resp2 = Inr (JObj d2)" and
    r2: "token_type a' = dict_get d2 ''token_type'' (JStr ''bearer'')"
    unfolding token_stored_def by blast
  then have "d2 = [(''access_token'', JStr ''tok''), (''token_type'', JStr ''Bearer'')]"
    unfolding rp2 by force
  with r2 have tt2: "token_type a' = JStr ''Bearer''"
    by (simp add: dict_get_def)
  from run t tt h tt2 have
    "fst (authenticate E s) = Inr (JStr ''tok'') \<and> token s' = JStr ''tok'' \<and>
     token_type s' = JStr ''bearer'' \<and>
     headers (get_request E s' ''https://bank.example/stet/identity'') =
       [(''Authorization'', ''bearer tok''), (''Content-Type'', ''application/json'')] \<and>
     token_type a' = JStr ''Bearer''"
    by simp
  then show ?thesis
    unfolding s'_def s_def E_def a'_def a_def E2_def .
qed

section \<open>A record without an id\<close>



end
